theory Spec2Isabelle
  imports Main "HOL-Library.Word"
begin

unbundle bit_operations_syntax

section \<open>Data model of the X11 swapchain and its presenters\<close>

text \<open>
  The embedding follows \<^verbatim>\<open>wsi/x11/swapchain.cpp\<close>, \<^verbatim>\<open>wsi/x11/dri3_presenter.cpp\<close> and
  \<^verbatim>\<open>wsi/x11/wayland_bypass.cpp\<close>. Pointers to opaque objects are \<open>nat option\<close>
  (\<open>None\<close> is \<^verbatim>\<open>nullptr\<close>), pointers to objects of the layer are \<open>option\<close>s of
  the object's record. Every request sent to a display server, every call into the generic
  swapchain base and every Vulkan destruction is recorded, in program order, as an
  \<open>effect\<close>.
\<close>

type_synonym u32 = "32 word"
type_synonym u64 = "64 word"

datatype VkResult =
    VK_SUCCESS
  | VK_NOT_READY
  | VK_TIMEOUT
  | VK_ERROR_INITIALIZATION_FAILED
  | VK_ERROR_OUT_OF_HOST_MEMORY
  | VK_ERROR_SURFACE_LOST_KHR
  | VK_ERROR_OUT_OF_DATE_KHR

datatype effect =
    WlCreateParams
  | WlParamsAdd int u32 u32 u32 u32 u32
  | WlCreateImmed u32 u32 u32 u32
  | WlParamsDestroy
  | WlBufferAddListener nat
  | WlSurfaceAttach nat
  | WlSurfaceDamageBuffer
  | WlSurfaceCommit
  | WlDisplayFlush
  | WlBufferDestroy nat
  | XcbPresentPixmap u32 u32
  | XcbFlush
  | XcbFreePixmap u32
  | ShmPresentImage u32
  | ShmDestroyImageResources
  | UnpresentImage u32
  | SetPresentId u64
  | NotifyAll
  | ThreadJoin
  | PageFlipSemaphorePost
  | VkDestroyImage u64
  | AllocatorDestroy

text \<open>
  Modelled from the spec: the external-memory descriptor of an image (class
  \<^verbatim>\<open>external_memory\<close>, declared outside the files at hand): per-plane DMA-BUF fds,
  strides and offsets.
\<close>

record external_memory =
  buffer_fds :: "int list"
  strides :: "int list"
  offsets :: "u32 list"

text \<open>
  Modelled from the spec: \<^verbatim>\<open>x11_image_data\<close> is declared in \<^verbatim>\<open>swapchain.hpp\<close>;
  these are the fields the three source files read and write. \<open>pending_completions\<close> is
  the size of the container of that name.
\<close>

record x11_image_data =
  external_mem :: external_memory
  pixmap :: u32
  cpu_buffer :: "nat option"
  width :: u32
  height :: u32
  depth :: int
  pending_completions :: nat

definition XCB_PIXMAP_NONE :: u32 where
  "XCB_PIXMAP_NONE = 0"

definition VK_NULL_HANDLE :: u64 where
  "VK_NULL_HANDLE = 0"

record wayland_bypass =
  m_wl_display :: "nat option"
  m_wl_surface :: "nat option"
  m_dmabuf :: "nat option"

record dri3_presenter =
  m_connection :: "nat option"
  m_window :: u32
  m_render_node_fd :: int
  m_present_serial :: u32

section \<open>Wayland bypass: per-image resources\<close>

definition DRM_FORMAT_ARGB8888 :: u32 where "DRM_FORMAT_ARGB8888 = 0x34325241"
definition DRM_FORMAT_XRGB8888 :: u32 where "DRM_FORMAT_XRGB8888 = 0x34325258"
definition DRM_FORMAT_ABGR8888 :: u32 where "DRM_FORMAT_ABGR8888 = 0x34324241"
definition DRM_FORMAT_XBGR8888 :: u32 where "DRM_FORMAT_XBGR8888 = 0x34324258"

text \<open>
  \<^verbatim>\<open>wayland_bypass::create_image_resources\<close>. The two remapping statements are the
  source's two successive \<^verbatim>\<open>if\<close>s on the (reassigned) parameter \<^verbatim>\<open>fourcc\<close>.
  \<open>created\<close> is what the compositor library returns from
  \<^verbatim>\<open>zwp_linux_buffer_params_v1_create_immed\<close>. The result is the \<^verbatim>\<open>VkResult\<close>, the
  updated image data and the requests issued.
\<close>

definition wl_create_image_resources ::
  "wayland_bypass \<Rightarrow> nat option \<Rightarrow> x11_image_data \<Rightarrow> u32 \<Rightarrow> u32 \<Rightarrow> u32 \<Rightarrow> u64
    \<Rightarrow> VkResult \<times> x11_image_data \<times> effect list" where
  "wl_create_image_resources wb created image_data w h fourcc modifier =
    (if m_dmabuf wb = None \<or> m_wl_display wb = None
     then (VK_ERROR_INITIALIZATION_FAILED, image_data, [])
     else
       let dma_buf_fd = buffer_fds (external_mem image_data) ! 0 in
       if dma_buf_fd < 0 then (VK_ERROR_INITIALIZATION_FAILED, image_data, [])
       else
         let stride = (word_of_int (strides (external_mem image_data) ! 0) :: u32);
             offset = offsets (external_mem image_data) ! 0;
             modifier_hi = (ucast (drop_bit 32 modifier) :: u32);
             modifier_lo = (ucast (modifier AND 0xFFFFFFFF) :: u32);
             fourcc1 = (if fourcc = 0x34325241 then 0x34325258 else fourcc);
             fourcc2 = (if fourcc1 = 0x34324241 then 0x34324258 else fourcc1);
             reqs = [WlCreateParams,
                     WlParamsAdd dma_buf_fd 0 offset stride modifier_hi modifier_lo,
                     WlCreateImmed w h fourcc2 0,
                     WlParamsDestroy]
         in case created of
              None \<Rightarrow> (VK_ERROR_INITIALIZATION_FAILED, image_data, reqs)
            | Some buffer \<Rightarrow>
                (VK_SUCCESS,
                 image_data\<lparr>cpu_buffer := Some buffer, width := w, height := h\<rparr>,
                 reqs @ [WlBufferAddListener buffer]))"

text \<open>The fourcc arguments of the buffer-creation requests among a list of effects.\<close>

fun created_fourccs :: "effect list \<Rightarrow> u32 list" where
  "created_fourccs [] = []"
| "created_fourccs (WlCreateImmed w h f fl # es) = f # created_fourccs es"
| "created_fourccs (e # es) = created_fourccs es"


text \<open>\<^verbatim>\<open>wayland_bypass::present_image\<close>; \<open>flush_ret\<close> is the value of \<^verbatim>\<open>wl_display_flush\<close>.\<close>

definition wl_present_image ::
  "wayland_bypass \<Rightarrow> int \<Rightarrow> x11_image_data \<Rightarrow> VkResult \<times> effect list" where
  "wl_present_image wb flush_ret image_data =
    (if m_wl_surface wb = None \<or> m_wl_display wb = None then (VK_ERROR_SURFACE_LOST_KHR, [])
     else case cpu_buffer image_data of
        None \<Rightarrow> (VK_ERROR_SURFACE_LOST_KHR, [])
      | Some buffer \<Rightarrow>
          (if flush_ret < 0 then VK_ERROR_SURFACE_LOST_KHR else VK_SUCCESS,
           [WlSurfaceAttach buffer, WlSurfaceDamageBuffer, WlSurfaceCommit, WlDisplayFlush]))"

text \<open>\<^verbatim>\<open>wayland_bypass::destroy_image_resources\<close>.\<close>

definition wl_destroy_image_resources :: "x11_image_data \<Rightarrow> x11_image_data \<times> effect list" where
  "wl_destroy_image_resources image_data =
    (case cpu_buffer image_data of
       None \<Rightarrow> (image_data, [])
     | Some buffer \<Rightarrow> (image_data\<lparr>cpu_buffer := None\<rparr>, [WlBufferDestroy buffer]))"

section \<open>DRI3 presenter\<close>

text \<open>
  \<^verbatim>\<open>dri3_presenter::present_image\<close>. The parameter \<open>serial\<close> is discarded by the
  source (\<^verbatim>\<open>(void)serial;\<close>); the request carries the presenter's own counter
  \<^verbatim>\<open>m_present_serial\<close>, a \<^verbatim>\<open>uint32_t\<close>, after its increment.
\<close>

definition dri3_present_image ::
  "dri3_presenter \<Rightarrow> x11_image_data \<Rightarrow> u32 \<Rightarrow> VkResult \<times> dri3_presenter \<times> effect list" where
  "dri3_present_image p image_data serial =
    (if m_connection p = None \<or> pixmap image_data = XCB_PIXMAP_NONE
     then (VK_ERROR_SURFACE_LOST_KHR, p, [])
     else
       let p' = p\<lparr>m_present_serial := m_present_serial p + 1\<rparr>
       in (VK_SUCCESS, p', [XcbPresentPixmap (pixmap image_data) (m_present_serial p'), XcbFlush]))"

text \<open>\<^verbatim>\<open>dri3_presenter::destroy_image_resources\<close>.\<close>

definition dri3_destroy_image_resources ::
  "dri3_presenter \<Rightarrow> x11_image_data \<Rightarrow> x11_image_data \<times> effect list" where
  "dri3_destroy_image_resources p image_data =
    (if m_connection p \<noteq> None \<and> pixmap image_data \<noteq> XCB_PIXMAP_NONE
     then (image_data\<lparr>pixmap := XCB_PIXMAP_NONE\<rparr>, [XcbFreePixmap (pixmap image_data)])
     else (image_data, []))"

section \<open>The swapchain\<close>

text \<open>
  Modelled from the spec: the image statuses of the generic swapchain base
  (\<^verbatim>\<open>swapchain_image::status\<close>), which is declared outside the files at hand.
\<close>

datatype image_status = INVALID | ACQUIRED | PRESENTED | FREE

text \<open>The field \<^verbatim>\<open>image\<close> (the \<^verbatim>\<open>VkImage\<close> handle) is \<open>image_vk\<close> here.\<close>

record swapchain_image =
  data :: "x11_image_data option"
  image_vk :: u64
  status :: image_status

datatype presenter_type = SHM | DRI3 | WAYLAND_BYPASS

text \<open>
  The members of \<^verbatim>\<open>swapchain\<close> the modelled functions use. The class is declared in
  \<^verbatim>\<open>swapchain.hpp\<close>, outside the files at hand: the ring is an array of
  \<^verbatim>\<open>BYPASS_DEFER_FRAMES\<close> \<^verbatim>\<open>int\<close>s with \<open>-1\<close> as sentinel, the head an index into it;
  \<^verbatim>\<open>m_send_sbc\<close> is a 64-bit counter, which \<^verbatim>\<open>present_image\<close> casts to \<^verbatim>\<open>uint32_t\<close>.
  The SHM presenter is opaque (\<open>None\<close> is a null \<^verbatim>\<open>m_shm_presenter\<close>).
  \<open>effects\<close> is the log of everything the swapchain has done so far, oldest first.
\<close>

record swapchain =
  m_swapchain_images :: "swapchain_image list"
  m_presenter :: presenter_type
  m_wayland_bypass :: "wayland_bypass option"
  m_dri3_presenter :: "dri3_presenter option"
  m_shm_presenter :: "nat option"
  m_send_sbc :: u64
  m_bypass_deferred :: "int list"
  m_bypass_defer_head :: nat
  m_bypass_deferred_release :: bool
  m_present_event_thread_run :: bool
  m_present_event_thread_joinable :: bool
  m_page_flip_thread_run :: bool
  effects :: "effect list"

definition X11_SWAPCHAIN_MAX_PENDING_COMPLETIONS :: nat where
  "X11_SWAPCHAIN_MAX_PENDING_COMPLETIONS = 128"

text \<open>Modelled from the spec: the ring size \<^verbatim>\<open>DEFER_FRAMES\<close> = 2 (a macro of \<^verbatim>\<open>swapchain.hpp\<close>).\<close>

definition BYPASS_DEFER_FRAMES :: nat where
  "BYPASS_DEFER_FRAMES = 2"

text \<open>
  Modelled from the spec: \<^verbatim>\<open>swapchain_base::unpresent_image\<close>, which returns an image
  to the free pool: the image's status becomes \<open>FREE\<close>. An index past the end of the
  image array changes no image.
\<close>

definition unpresent_image :: "u32 \<Rightarrow> swapchain \<Rightarrow> swapchain" where
  "unpresent_image presented_index s =
    s\<lparr>m_swapchain_images :=
         (m_swapchain_images s)[unat presented_index :=
            (m_swapchain_images s ! unat presented_index)\<lparr>status := FREE\<rparr>],
      effects := effects s @ [UnpresentImage presented_index]\<rparr>"

subsection \<open>Blocking and undefined behaviour\<close>

text \<open>
  A call that waits on the condition variable \<^verbatim>\<open>m_thread_status_cond\<close> is given the
  list of its wake-ups: each one carries what the other threads have made of the shared
  state by then, and the clock reading at that moment in nanoseconds. A call that is
  still waiting when the list ends \<open>Blocks\<close>. \<open>Undefined\<close> stands for undefined
  behaviour of the C++ source (an index out of range, a null pointer dereferenced).
\<close>

datatype 'a outcome = Returns 'a | Blocks | Undefined

record wake =
  w_images :: "swapchain_image list"
  w_run :: bool
  w_now :: int

definition woken :: "wake \<Rightarrow> swapchain \<Rightarrow> swapchain" where
  "woken w s = s\<lparr>m_swapchain_images := w_images w, m_present_event_thread_run := w_run w\<rparr>"

subsection \<open>\<^verbatim>\<open>swapchain::present_image\<close>\<close>

record pending_present_request =
  image_index :: u32
  present_id :: u64

text \<open>
  What \<^verbatim>\<open>present_image\<close> gets from outside the swapchain: the wake-ups of its wait,
  the value of \<^verbatim>\<open>wl_display_flush\<close>, the result of the SHM presenter (whose source is
  not at hand) and \<^verbatim>\<open>m_device_data.is_present_id_enabled()\<close>.
\<close>

record present_env =
  wakes :: "wake list"
  wl_flush_ret :: int
  shm_present_result :: VkResult
  present_id_enabled :: bool

text \<open>
  The loop at the head of \<^verbatim>\<open>present_image\<close>: while the image has
  \<^verbatim>\<open>X11_SWAPCHAIN_MAX_PENDING_COMPLETIONS\<close> pending completions, give up if the event
  thread has stopped, else wait. The result is \<open>True\<close> when the loop was left normally,
  with the image data and the state as found then.
\<close>

fun await_completion_slot ::
  "wake list \<Rightarrow> nat \<Rightarrow> swapchain \<Rightarrow> (bool \<times> x11_image_data \<times> swapchain) outcome" where
  "await_completion_slot [] i s =
     (if length (m_swapchain_images s) \<le> i then Undefined
      else case data (m_swapchain_images s ! i) of
        None \<Rightarrow> Undefined
      | Some image_data \<Rightarrow>
          if pending_completions image_data = X11_SWAPCHAIN_MAX_PENDING_COMPLETIONS then
            if \<not> m_present_event_thread_run s then Returns (False, image_data, s)
            else Blocks
          else Returns (True, image_data, s))"
| "await_completion_slot (w # ws) i s =
     (if length (m_swapchain_images s) \<le> i then Undefined
      else case data (m_swapchain_images s ! i) of
        None \<Rightarrow> Undefined
      | Some image_data \<Rightarrow>
          if pending_completions image_data = X11_SWAPCHAIN_MAX_PENDING_COMPLETIONS then
            if \<not> m_present_event_thread_run s then Returns (False, image_data, s)
            else await_completion_slot ws i (woken w s)
          else Returns (True, image_data, s))"

definition set_present_id :: "present_env \<Rightarrow> pending_present_request \<Rightarrow> swapchain \<Rightarrow> swapchain" where
  "set_present_id env pending_present s =
    (if present_id_enabled env
     then s\<lparr>effects := effects s @ [SetPresentId (present_id pending_present)]\<rparr>
     else s)"

text \<open>
  The release policy after the presenter's call, which the source writes out twice, word
  for word, in the Wayland-bypass branch and in the DRI3 branch: on success with deferred
  release, free the image whose index is at the head of the ring (if it is not the
  sentinel), store the presented index there and advance the head; on success without
  deferred release, and on failure, free the presented image at once. The store converts
  the \<^verbatim>\<open>uint32_t\<close> index to \<^verbatim>\<open>int\<close>.
\<close>

definition release_presented :: "VkResult \<Rightarrow> u32 \<Rightarrow> swapchain \<Rightarrow> swapchain" where
  "release_presented present_result idx s =
    (if present_result = VK_SUCCESS then
       if m_bypass_deferred_release s then
         let oldest = m_bypass_deferred s ! m_bypass_defer_head s;
             s1 = (if 0 \<le> oldest then unpresent_image (word_of_int oldest) s else s);
             s2 = s1\<lparr>m_bypass_deferred := (m_bypass_deferred s1)[m_bypass_defer_head s1 := sint idx]\<rparr>
         in s2\<lparr>m_bypass_defer_head := (m_bypass_defer_head s2 + 1) mod BYPASS_DEFER_FRAMES\<rparr>
       else unpresent_image idx s
     else unpresent_image idx s)"

definition finish_present :: "present_env \<Rightarrow> pending_present_request \<Rightarrow> swapchain \<Rightarrow> swapchain" where
  "finish_present env pending_present s =
    (let s1 = set_present_id env pending_present s
     in s1\<lparr>effects := effects s1 @ [NotifyAll]\<rparr>)"

text \<open>
  \<^verbatim>\<open>swapchain::present_image\<close>. The function returns nothing; the model returns next
  to the new state the value of its local \<^verbatim>\<open>present_result\<close> (\<open>None\<close> when the
  function gave up before calling a presenter). The Wayland-bypass branch gives up the
  status lock around the presenter's call; what other threads do meanwhile is outside
  the model.
\<close>

definition present_image ::
  "present_env \<Rightarrow> pending_present_request \<Rightarrow> swapchain \<Rightarrow> (VkResult option \<times> swapchain) outcome" where
  "present_image env pending_present s0 =
    (case await_completion_slot (wakes env) (unat (image_index pending_present)) s0 of
       Blocks \<Rightarrow> Blocks
     | Undefined \<Rightarrow> Undefined
     | Returns (proceed, image_data, s) \<Rightarrow>
         if \<not> proceed then
           Returns (None, unpresent_image (image_index pending_present)
                            (set_present_id env pending_present s))
         else
           let s1 = s\<lparr>m_send_sbc := m_send_sbc s + 1\<rparr>;
               serial = (ucast (m_send_sbc s1) :: u32)
           in
           if m_presenter s1 = WAYLAND_BYPASS \<and> m_wayland_bypass s1 \<noteq> None then
             let (present_result, evs) =
                   wl_present_image (the (m_wayland_bypass s1)) (wl_flush_ret env) image_data;
                 s2 = s1\<lparr>effects := effects s1 @ evs\<rparr>
             in Returns (Some present_result,
                  finish_present env pending_present
                    (release_presented present_result (image_index pending_present) s2))
           else if m_presenter s1 = DRI3 \<and> m_dri3_presenter s1 \<noteq> None then
             let (present_result, p', evs) =
                   dri3_present_image (the (m_dri3_presenter s1)) image_data serial;
                 s2 = s1\<lparr>m_dri3_presenter := Some p', effects := effects s1 @ evs\<rparr>
             in Returns (Some present_result,
                  finish_present env pending_present
                    (release_presented present_result (image_index pending_present) s2))
           else
             (case m_shm_presenter s1 of
                None \<Rightarrow> Undefined
              | Some shm \<Rightarrow>
                  let present_result = shm_present_result env;
                      s2 = s1\<lparr>effects := effects s1 @ [ShmPresentImage serial]\<rparr>
                  in Returns (Some present_result,
                       finish_present env pending_present
                         (unpresent_image (image_index pending_present) s2))))"

text \<open>The image indices handed to \<^verbatim>\<open>unpresent_image\<close> among a list of effects.\<close>

fun unpresented :: "effect list \<Rightarrow> u32 list" where
  "unpresented [] = []"
| "unpresented (UnpresentImage i # es) = i # unpresented es"
| "unpresented (e # es) = unpresented es"

text \<open>The images returned to the free pool between an earlier state and a later one.\<close>

definition released_between :: "swapchain \<Rightarrow> swapchain \<Rightarrow> u32 list" where
  "released_between s s' = unpresented (drop (length (effects s)) (effects s'))"


text \<open>One of the two zero-copy branches of \<^verbatim>\<open>present_image\<close> is taken.\<close>

definition zero_copy_active :: "swapchain \<Rightarrow> bool" where
  "zero_copy_active s \<longleftrightarrow>
     (m_presenter s = WAYLAND_BYPASS \<and> m_wayland_bypass s \<noteq> None) \<or>
     (m_presenter s = DRI3 \<and> m_dri3_presenter s \<noteq> None)"

text \<open>The ring has its \<^verbatim>\<open>BYPASS_DEFER_FRAMES\<close> slots and the head points at one of them.\<close>

definition ring_ok :: "swapchain \<Rightarrow> bool" where
  "ring_ok s \<longleftrightarrow>
     length (m_bypass_deferred s) = BYPASS_DEFER_FRAMES \<and> m_bypass_defer_head s < BYPASS_DEFER_FRAMES"

text \<open>
  The conditions of a present, read on its inputs. The image has a free completion slot:
  the loop at the head of \<^verbatim>\<open>present_image\<close> is not entered. The image has none and
  the event thread runs: \<^verbatim>\<open>present_image\<close> waits.
\<close>

definition slot_available :: "nat \<Rightarrow> swapchain \<Rightarrow> x11_image_data \<Rightarrow> bool" where
  "slot_available i s d \<longleftrightarrow>
     i < length (m_swapchain_images s) \<and> data (m_swapchain_images s ! i) = Some d \<and>
     pending_completions d \<noteq> X11_SWAPCHAIN_MAX_PENDING_COMPLETIONS"

definition stalled :: "nat \<Rightarrow> swapchain \<Rightarrow> bool" where
  "stalled i s \<longleftrightarrow>
     i < length (m_swapchain_images s) \<and>
     (case data (m_swapchain_images s ! i) of
        None \<Rightarrow> False
      | Some d \<Rightarrow> pending_completions d = X11_SWAPCHAIN_MAX_PENDING_COMPLETIONS) \<and>
     m_present_event_thread_run s"

text \<open>
  The result of the call that \<^verbatim>\<open>present_image\<close> makes to the active presenter for
  the image with data \<open>d\<close>, read on the state before the present: the Wayland bypass
  when it is selected and there, else the DRI3 presenter when it is selected and there
  (with the serial \<^verbatim>\<open>present_image\<close> hands it), else the SHM presenter, whose result is
  given. \<open>None\<close>: the branch taken has no presenter to call.
\<close>

definition presenter_answer :: "present_env \<Rightarrow> swapchain \<Rightarrow> x11_image_data \<Rightarrow> VkResult option" where
  "presenter_answer env s d =
    (if m_presenter s = WAYLAND_BYPASS \<and> m_wayland_bypass s \<noteq> None then
       (case m_wayland_bypass s of
          None \<Rightarrow> None
        | Some wb \<Rightarrow> Some (fst (wl_present_image wb (wl_flush_ret env) d)))
     else if m_presenter s = DRI3 \<and> m_dri3_presenter s \<noteq> None then
       (case m_dri3_presenter s of
          None \<Rightarrow> None
        | Some p \<Rightarrow> Some (fst (dri3_present_image p d (ucast (m_send_sbc s + 1)))))
     else
       (case m_shm_presenter s of
          None \<Rightarrow> None
        | Some shm \<Rightarrow> Some (shm_present_result env)))"

subsection \<open>\<^verbatim>\<open>swapchain::get_free_buffer\<close>\<close>

text \<open>\<^verbatim>\<open>swapchain::free_image_found\<close>: the loop over the image array.\<close>

fun free_image_found :: "swapchain_image list \<Rightarrow> bool" where
  "free_image_found [] = False"
| "free_image_found (img # imgs) = (if status img = FREE then True else free_image_found imgs)"

definition UINT64_MAX :: u64 where
  "UINT64_MAX = 0xFFFFFFFFFFFFFFFF"

text \<open>
  The loop of the \<^verbatim>\<open>UINT64_MAX\<close> case, on the image array and the run flag as the
  thread sees them now and after each wake-up. \<open>Returns None\<close>: the loop was left, a
  free image exists. \<open>Returns (Some r)\<close>: the function returned \<open>r\<close> from inside the
  loop.
\<close>

fun wait_free :: "wake list \<Rightarrow> swapchain_image list \<Rightarrow> bool \<Rightarrow> VkResult option outcome" where
  "wait_free [] imgs run =
     (if free_image_found imgs then Returns None
      else if \<not> run then Returns (Some VK_ERROR_OUT_OF_DATE_KHR)
      else Blocks)"
| "wait_free (w # ws) imgs run =
     (if free_image_found imgs then Returns None
      else if \<not> run then Returns (Some VK_ERROR_OUT_OF_DATE_KHR)
      else wait_free ws (w_images w) (w_run w))"

text \<open>
  The loop of the deadline case. \<^verbatim>\<open>wait_until\<close> reports \<^verbatim>\<open>cv_status::timeout\<close> when
  the clock has reached \<open>time_point\<close> at the wake-up; the source then returns
  \<^verbatim>\<open>VK_TIMEOUT\<close> without looking at the images again.
\<close>

fun wait_free_until ::
  "int \<Rightarrow> wake list \<Rightarrow> swapchain_image list \<Rightarrow> bool \<Rightarrow> VkResult option outcome" where
  "wait_free_until time_point [] imgs run =
     (if free_image_found imgs then Returns None
      else if \<not> run then Returns (Some VK_ERROR_OUT_OF_DATE_KHR)
      else Blocks)"
| "wait_free_until time_point (w # ws) imgs run =
     (if free_image_found imgs then Returns None
      else if \<not> run then Returns (Some VK_ERROR_OUT_OF_DATE_KHR)
      else if time_point \<le> w_now w then Returns (Some VK_TIMEOUT)
      else wait_free_until time_point ws (w_images w) (w_run w))"

text \<open>
  \<^verbatim>\<open>swapchain::get_free_buffer\<close>. \<open>now\<close> is the reading of the clock at the call,
  \<open>ws\<close> the wake-ups of its waits; the result is the \<^verbatim>\<open>VkResult\<close> and the value left
  in \<^verbatim>\<open>*timeout\<close>. A clock reading and a duration are signed 64-bit counts of
  nanoseconds (\<^verbatim>\<open>std::chrono::nanoseconds\<close>), held here in 64-bit words and read with
  \<open>sint\<close>: the \<^verbatim>\<open>uint64_t\<close> timeout is converted to such a count and added to the
  reading in two's complement, as the running code does, so that a sum past the largest
  count wraps around to a deadline in the past.
\<close>

definition get_free_buffer ::
  "u64 \<Rightarrow> wake list \<Rightarrow> u64 \<Rightarrow> swapchain \<Rightarrow> (VkResult \<times> u64) outcome" where
  "get_free_buffer now ws timeout s =
    (if timeout = 0 then
       Returns (if free_image_found (m_swapchain_images s) then VK_SUCCESS else VK_NOT_READY,
                timeout)
     else if timeout = UINT64_MAX then
       (case wait_free ws (m_swapchain_images s) (m_present_event_thread_run s) of
          Returns None \<Rightarrow> Returns (VK_SUCCESS, 0)
        | Returns (Some r) \<Rightarrow> Returns (r, timeout)
        | Blocks \<Rightarrow> Blocks
        | Undefined \<Rightarrow> Undefined)
     else
       let time_point = sint (now + timeout) in
       (case wait_free_until time_point ws (m_swapchain_images s) (m_present_event_thread_run s) of
          Returns None \<Rightarrow> Returns (VK_SUCCESS, 0)
        | Returns (Some r) \<Rightarrow> Returns (r, timeout)
        | Blocks \<Rightarrow> Blocks
        | Undefined \<Rightarrow> Undefined))"

text \<open>A wake-up that finds no free image and the event thread running: the wait goes on.\<close>

definition still_waiting :: "wake \<Rightarrow> bool" where
  "still_waiting w \<longleftrightarrow> \<not> free_image_found (w_images w) \<and> w_run w"

subsection \<open>\<^verbatim>\<open>swapchain::destroy_image\<close>\<close>

text \<open>
  The chain of \<^verbatim>\<open>if\<close>s in \<^verbatim>\<open>destroy_image\<close> that hands the image data to the active
  presenter's \<^verbatim>\<open>destroy_image_resources\<close>. The SHM presenter's source is not at hand:
  its call is one opaque effect.
\<close>

definition destroy_image_resources :: "swapchain \<Rightarrow> x11_image_data \<Rightarrow> effect list" where
  "destroy_image_resources s d =
    (if m_presenter s = WAYLAND_BYPASS \<and> m_wayland_bypass s \<noteq> None
     then snd (wl_destroy_image_resources d)
     else if m_presenter s = DRI3 \<and> m_dri3_presenter s \<noteq> None
     then snd (dri3_destroy_image_resources (the (m_dri3_presenter s)) d)
     else if m_shm_presenter s \<noteq> None then [ShmDestroyImageResources]
     else [])"

text \<open>
  \<^verbatim>\<open>swapchain::destroy_image\<close> on one image of the swapchain: the image as the call
  leaves it, and what the call destroys, in order. The image data is deallocated after
  the presenter has seen it.
\<close>

definition destroy_image :: "swapchain \<Rightarrow> swapchain_image \<Rightarrow> swapchain_image \<times> effect list" where
  "destroy_image s image0 =
    (let (image1, evs1) =
           (if status image0 \<noteq> INVALID then
              if image_vk image0 \<noteq> VK_NULL_HANDLE
              then (image0\<lparr>image_vk := VK_NULL_HANDLE, status := INVALID\<rparr>,
                    [VkDestroyImage (image_vk image0)])
              else (image0\<lparr>status := INVALID\<rparr>, [])
            else (image0, []))
     in case data image1 of
          None \<Rightarrow> (image1, evs1)
        | Some d \<Rightarrow>
            (image1\<lparr>data := None\<rparr>,
             evs1 @ destroy_image_resources s d @ [AllocatorDestroy]))"

subsection \<open>\<^verbatim>\<open>swapchain::~swapchain\<close>\<close>









section \<open>The backend selector\<close>

text \<open>
  The first two phases of the selection in \<^verbatim>\<open>swapchain::init_platform\<close>: the
  configuration override and the detection of Zink. The file system is a map from paths
  to file contents (\<open>None\<close>: \<^verbatim>\<open>fopen\<close> fails), the environment a map from names to
  values. Files are byte strings.
\<close>

type_synonym filesystem = "string \<Rightarrow> string option"
type_synonym environment = "string \<Rightarrow> string option"

text \<open>
  One call of \<^verbatim>\<open>fgets\<close> with room for \<open>n\<close> characters on a stream that is not at
  its end: the characters stored, up to and with the first newline, and the rest of the
  stream.
\<close>

fun fgets_chunk :: "nat \<Rightarrow> string \<Rightarrow> string \<times> string" where
  "fgets_chunk n [] = ([], [])"
| "fgets_chunk n (c # cs) =
     (if n = 0 then ([], c # cs)
      else if c = CHR 0x0A then ([c], cs)
      else let (l, r) = fgets_chunk (n - 1) cs in (c # l, r))"

lemma fgets_chunk_rest: "length (snd (fgets_chunk n cs)) \<le> length cs"
  by (induction n cs rule: fgets_chunk.induct) (auto simp: split_beta)

text \<open>
  The buffers \<^verbatim>\<open>while (fgets(line, n, f))\<close> goes through until the end of the file.
  A buffer has room for \<open>n - 1\<close> characters; the loop of the source would not end on
  a buffer of size 1, the sizes in use are 256 and 512.
\<close>

function fgets_lines :: "nat \<Rightarrow> string \<Rightarrow> string list" where
  "fgets_lines n cs =
     (if n < 2 \<or> cs = [] then []
      else fst (fgets_chunk (n - 1) cs) # fgets_lines n (snd (fgets_chunk (n - 1) cs)))"
  by pat_completeness auto
termination
proof (relation "measure (\<lambda>(n, cs). length cs)")
  show "wf (measure (\<lambda>(n, cs). length cs))" by simp
next
  fix n :: nat and cs :: string
  assume "\<not> (n < 2 \<or> cs = [])"
  then obtain c cs' where cs: "cs = c # cs'" and n: "n - 1 \<noteq> 0"
    by (cases cs) auto
  have "length (snd (fgets_chunk (n - 1) (c # cs'))) \<le> length cs'"
    using n fgets_chunk_rest [of "n - 1 - 1" cs'] by (simp add: split_beta)
  then show "((n, snd (fgets_chunk (n - 1) cs)), (n, cs)) \<in> measure (\<lambda>(n, cs). length cs)"
    by (simp add: cs)
qed

declare fgets_lines.simps [simp del]

text \<open>The C string held by a buffer: its characters before the first NUL.\<close>

definition c_str :: "string \<Rightarrow> string" where
  "c_str buf = takeWhile (\<lambda>c. c \<noteq> CHR 0x00) buf"

text \<open>\<^verbatim>\<open>isspace\<close> in the C locale.\<close>

definition isspace :: "char \<Rightarrow> bool" where
  "isspace c \<longleftrightarrow> c = CHR 0x20 \<or> c = CHR 0x09 \<or> c = CHR 0x0A \<or> c = CHR 0x0B \<or> c = CHR 0x0C \<or> c = CHR 0x0D"

text \<open>
  A conversion \<^verbatim>\<open>%Ns\<close> of \<^verbatim>\<open>sscanf\<close>: skip white space, then take at most \<open>n\<close>
  characters that are not white space. The result is the word and the input left.
\<close>

definition scan_word :: "nat \<Rightarrow> string \<Rightarrow> string \<times> string" where
  "scan_word n s =
    (let s1 = dropWhile isspace s;
         w = take n (takeWhile (\<lambda>c. \<not> isspace c) s1)
     in (w, drop (length w) s1))"

text \<open>
  \<^verbatim>\<open>sscanf(line, "%255s %63s", app, pres) == 2\<close>: both conversions found a word.
\<close>

definition sscanf_app_pres :: "string \<Rightarrow> (string \<times> string) option" where
  "sscanf_app_pres line =
    (let (app, r) = scan_word 255 line;
         (pres, r') = scan_word 63 r
     in if app = [] \<or> pres = [] then None else Some (app, pres))"

text \<open>The enumeration \<^verbatim>\<open>preferred_presenter\<close> local to \<^verbatim>\<open>init_platform\<close>.\<close>

datatype preferred_presenter = PREFER_AUTO | PREFER_BYPASS | PREFER_DRI3 | PREFER_SHM

text \<open>
  The process name: the first line of \<^verbatim>\<open>/proc/self/comm\<close> in a buffer of 256, cut at
  its newline; empty when the file cannot be opened or read.
\<close>

definition read_proc_name :: "filesystem \<Rightarrow> string" where
  "read_proc_name fs =
    (case fs ''/proc/self/comm'' of
       None \<Rightarrow> []
     | Some content \<Rightarrow>
         (case fgets_lines 256 content of
            [] \<Rightarrow> []
          | line # _ \<Rightarrow> c_str (takeWhile (\<lambda>c. c \<noteq> CHR 0x0A) line)))"

text \<open>
  The loop over the lines of one configuration file. The first line whose first word is
  the process name ends the loop, whether its second word names a presenter or not.
\<close>

fun scan_config_lines :: "string \<Rightarrow> string list \<Rightarrow> preferred_presenter" where
  "scan_config_lines proc_name [] = PREFER_AUTO"
| "scan_config_lines proc_name (line # lines) =
     (if take 1 line = ''#'' \<or> take 1 line = [CHR 0x0A] then scan_config_lines proc_name lines
      else case sscanf_app_pres (c_str line) of
             None \<Rightarrow> scan_config_lines proc_name lines
           | Some (app, pres) \<Rightarrow>
               if app = proc_name then
                 (if pres = ''bypass'' then PREFER_BYPASS
                  else if pres = ''dri3'' then PREFER_DRI3
                  else if pres = ''shm'' then PREFER_SHM
                  else PREFER_AUTO)
               else scan_config_lines proc_name lines)"

definition config_paths :: "string list" where
  "config_paths = [''/etc/sky1/wsi-routing.conf'', ''/usr/share/cix-gpu/wsi-routing.conf'']"

text \<open>
  The loop over \<^verbatim>\<open>config_paths\<close>: a file that cannot be opened is skipped, and the
  loop ends after the first file that has set \<^verbatim>\<open>preferred\<close>.
\<close>

fun config_override :: "filesystem \<Rightarrow> string \<Rightarrow> string list \<Rightarrow> preferred_presenter" where
  "config_override fs proc_name [] = PREFER_AUTO"
| "config_override fs proc_name (path # paths) =
     (case fs path of
        None \<Rightarrow> config_override fs proc_name paths
      | Some content \<Rightarrow>
          let preferred = scan_config_lines proc_name (fgets_lines 512 content)
          in if preferred \<noteq> PREFER_AUTO then preferred
             else config_override fs proc_name paths)"

text \<open>\<^verbatim>\<open>strstr(haystack, needle) != NULL\<close>.\<close>

fun strstr :: "string \<Rightarrow> string \<Rightarrow> bool" where
  "strstr [] needle = (needle = [])"
| "strstr (c # cs) needle = (take (length needle) (c # cs) = needle \<or> strstr cs needle)"

text \<open>The scan of \<^verbatim>\<open>/proc/self/maps\<close> in buffers of 512.\<close>

definition maps_has_zink :: "filesystem \<Rightarrow> bool" where
  "maps_has_zink fs =
    (case fs ''/proc/self/maps'' of
       None \<Rightarrow> False
     | Some content \<Rightarrow>
         list_ex (\<lambda>line. strstr (c_str line) ''zink_dri.so'') (fgets_lines 512 content))"

definition is_zink :: "environment \<Rightarrow> filesystem \<Rightarrow> bool" where
  "is_zink getenv fs =
    (case getenv ''MESA_LOADER_DRIVER_OVERRIDE'' of
       None \<Rightarrow> maps_has_zink fs
     | Some driver \<Rightarrow> if driver = ''zink'' then True else maps_has_zink fs)"

text \<open>
  The preference \<^verbatim>\<open>init_platform\<close> arrives at before it tries the presenters.
\<close>

definition select_preferred :: "environment \<Rightarrow> filesystem \<Rightarrow> preferred_presenter" where
  "select_preferred getenv fs =
    (let proc_name = read_proc_name fs;
         preferred = (if proc_name \<noteq> [] then config_override fs proc_name config_paths
                      else PREFER_AUTO)
     in if preferred = PREFER_AUTO
        then (if is_zink getenv fs then PREFER_BYPASS else PREFER_DRI3)
        else preferred)"

text \<open>The first word of a line, as \<^verbatim>\<open>%255s\<close> reads it.\<close>

definition first_column :: "string \<Rightarrow> string" where
  "first_column line = fst (scan_word 255 (c_str line))"

section \<open>Example states\<close>

text \<open>
  A DRI3 swapchain of three acquired images right after its creation, and the states it
  goes through when images 0, 1 and 2 are presented in turn.
\<close>

definition example_data :: "u32 \<Rightarrow> nat option \<Rightarrow> x11_image_data" where
  "example_data pm buf =
    \<lparr>external_mem = \<lparr>buffer_fds = [7, -1, -1, -1], strides = [3200, 0, 0, 0],
                      offsets = [0, 0, 0, 0]\<rparr>,
     pixmap = pm, cpu_buffer = buf, width = 800, height = 600, depth = 24,
     pending_completions = 0\<rparr>"

definition example_presenter :: "u32 \<Rightarrow> dri3_presenter" where
  "example_presenter n =
    \<lparr>m_connection = Some 1, m_window = 5, m_render_node_fd = 3, m_present_serial = n\<rparr>"

definition example_dri3 :: swapchain where
  "example_dri3 =
    \<lparr>m_swapchain_images =
       [\<lparr>data = Some (example_data 21 None), image_vk = 101, status = ACQUIRED\<rparr>,
        \<lparr>data = Some (example_data 22 None), image_vk = 102, status = ACQUIRED\<rparr>,
        \<lparr>data = Some (example_data 23 None), image_vk = 103, status = ACQUIRED\<rparr>],
     m_presenter = DRI3,
     m_wayland_bypass = None,
     m_dri3_presenter = Some (example_presenter 0),
     m_shm_presenter = None,
     m_send_sbc = 0,
     m_bypass_deferred = [-1, -1],
     m_bypass_defer_head = 0,
     m_bypass_deferred_release = True,
     m_present_event_thread_run = True,
     m_present_event_thread_joinable = True,
     m_page_flip_thread_run = True,
     effects = []\<rparr>"

definition example_dri3_1 :: swapchain where
  "example_dri3_1 =
    example_dri3\<lparr>m_send_sbc := 1, m_dri3_presenter := Some (example_presenter 1),
      m_bypass_deferred := [0, -1], m_bypass_defer_head := 1,
      effects := [XcbPresentPixmap 21 1, XcbFlush, NotifyAll]\<rparr>"

definition example_dri3_2 :: swapchain where
  "example_dri3_2 =
    example_dri3\<lparr>m_send_sbc := 2, m_dri3_presenter := Some (example_presenter 2),
      m_bypass_deferred := [0, 1], m_bypass_defer_head := 0,
      effects := [XcbPresentPixmap 21 1, XcbFlush, NotifyAll,
                  XcbPresentPixmap 22 2, XcbFlush, NotifyAll]\<rparr>"

definition example_dri3_3 :: swapchain where
  "example_dri3_3 =
    example_dri3\<lparr>m_swapchain_images :=
       [\<lparr>data = Some (example_data 21 None), image_vk = 101, status = FREE\<rparr>,
        \<lparr>data = Some (example_data 22 None), image_vk = 102, status = ACQUIRED\<rparr>,
        \<lparr>data = Some (example_data 23 None), image_vk = 103, status = ACQUIRED\<rparr>],
      m_send_sbc := 3, m_dri3_presenter := Some (example_presenter 3),
      m_bypass_deferred := [2, 1], m_bypass_defer_head := 1,
      effects := [XcbPresentPixmap 21 1, XcbFlush, NotifyAll,
                  XcbPresentPixmap 22 2, XcbFlush, NotifyAll,
                  XcbPresentPixmap 23 3, XcbFlush, UnpresentImage 0, NotifyAll]\<rparr>"

definition example_env :: present_env where
  "example_env = \<lparr>wakes = [], wl_flush_ret = 0, shm_present_result = VK_SUCCESS,
                   present_id_enabled = False\<rparr>"

definition request :: "u32 \<Rightarrow> pending_present_request" where
  "request i = \<lparr>image_index = i, present_id = 0\<rparr>"




text \<open>
  A Wayland-bypass swapchain of two images whose compositor connection fails on flush,
  and the state after image 0 is presented.
\<close>

definition example_bypass :: swapchain where
  "example_bypass =
    \<lparr>m_swapchain_images =
       [\<lparr>data = Some (example_data 0 (Some 31)), image_vk = 101, status = ACQUIRED\<rparr>,
        \<lparr>data = Some (example_data 0 (Some 32)), image_vk = 102, status = FREE\<rparr>],
     m_presenter = WAYLAND_BYPASS,
     m_wayland_bypass = Some \<lparr>m_wl_display = Some 1, m_wl_surface = Some 2, m_dmabuf = Some 3\<rparr>,
     m_dri3_presenter = None,
     m_shm_presenter = None,
     m_send_sbc = 0,
     m_bypass_deferred = [-1, -1],
     m_bypass_defer_head = 0,
     m_bypass_deferred_release = True,
     m_present_event_thread_run = True,
     m_present_event_thread_joinable = True,
     m_page_flip_thread_run = True,
     effects = []\<rparr>"

definition example_bypass_1 :: swapchain where
  "example_bypass_1 =
    example_bypass\<lparr>m_swapchain_images :=
       [\<lparr>data = Some (example_data 0 (Some 31)), image_vk = 101, status = FREE\<rparr>,
        \<lparr>data = Some (example_data 0 (Some 32)), image_vk = 102, status = FREE\<rparr>],
      m_send_sbc := 1,
      effects := [WlSurfaceAttach 31, WlSurfaceDamageBuffer, WlSurfaceCommit, WlDisplayFlush,
                  UnpresentImage 0, NotifyAll]\<rparr>"


definition example_unbound :: swapchain_image where
  "example_unbound = \<lparr>data = Some (example_data 0 None), image_vk = 101, status = INVALID\<rparr>"

definition example_shm :: swapchain where
  "example_shm =
    \<lparr>m_swapchain_images = [example_unbound],
     m_presenter = SHM,
     m_wayland_bypass = None,
     m_dri3_presenter = None,
     m_shm_presenter = Some 1,
     m_send_sbc = 0,
     m_bypass_deferred = [-1, -1],
     m_bypass_defer_head = 0,
     m_bypass_deferred_release = False,
     m_present_event_thread_run = True,
     m_present_event_thread_joinable = True,
     m_page_flip_thread_run = True,
     effects = []\<rparr>"

text \<open>
  A file system with the process name \<^verbatim>\<open>myapp\<close> and both routing files, the first of
  which does not name the process; and one whose only file is a \<^verbatim>\<open>/proc/self/maps\<close> of
  a single line of 517 bytes, the mapping of a \<^verbatim>\<open>zink_dri.so\<close> that lies two long
  directory names below \<^verbatim>\<open>/opt\<close>.
\<close>

definition example_routing :: filesystem where
  "example_routing path =
    (if path = ''/proc/self/comm'' then Some (''myapp'' @ [CHR 0x0A])
     else if path = ''/etc/sky1/wsi-routing.conf''
     then Some (''# routing'' @ [CHR 0x0A] @ ''other dri3'' @ [CHR 0x0A])
     else if path = ''/usr/share/cix-gpu/wsi-routing.conf''
     then Some (''myapp shm'' @ [CHR 0x0A])
     else None)"

definition no_environment :: environment where
  "no_environment name = None"

definition example_long_line :: string where
  "example_long_line =
     ''7f3a10000000-7f3a10a00000 r-xp 00000000 08:01 1311 /opt/'' @ replicate 224 (CHR ''d'')
       @ ''/'' @ replicate 223 (CHR ''e'') @ ''/zink_dri.so'' @ [CHR 0x0A]"

definition example_maps :: filesystem where
  "example_maps path = (if path = ''/proc/self/maps'' then Some example_long_line else None)"


text \<open>
  Three wake-ups of a waiting thread, at 400 ns, 1000 ns and 1200 ns after the call: the
  first two find the images of \<open>example_dri3\<close> (none free) and the event thread
  running, the third finds the event thread stopped.
\<close>

definition example_wake :: "int \<Rightarrow> bool \<Rightarrow> wake" where
  "example_wake t run = \<lparr>w_images = m_swapchain_images example_dri3, w_run = run, w_now = t\<rparr>"

text \<open>
  The two swapchains above with image 0 out of completion slots, and a wake-up that
  finds the images of the Wayland-bypass swapchain with their slots back.
\<close>

definition example_stalled :: swapchain where
  "example_stalled =
    example_dri3\<lparr>m_swapchain_images :=
       [\<lparr>data = Some ((example_data 21 None)\<lparr>pending_completions := 128\<rparr>),
         image_vk = 101, status = ACQUIRED\<rparr>,
        \<lparr>data = Some (example_data 22 None), image_vk = 102, status = ACQUIRED\<rparr>,
        \<lparr>data = Some (example_data 23 None), image_vk = 103, status = ACQUIRED\<rparr>]\<rparr>"

definition example_bypass_stalled :: swapchain where
  "example_bypass_stalled =
    example_bypass\<lparr>m_swapchain_images :=
       [\<lparr>data = Some ((example_data 0 (Some 31))\<lparr>pending_completions := 128\<rparr>),
         image_vk = 101, status = ACQUIRED\<rparr>,
        \<lparr>data = Some (example_data 0 (Some 32)), image_vk = 102, status = FREE\<rparr>]\<rparr>"

definition example_bypass_wake :: wake where
  "example_bypass_wake =
    \<lparr>w_images = m_swapchain_images example_bypass, w_run = True, w_now = 400\<rparr>"

section \<open>Properties of \<^verbatim>\<open>present_image\<close>\<close>

lemma await_completion_slot_Returns:
  "await_completion_slot ws i s = Returns (b, d, s') \<Longrightarrow>
     m_bypass_deferred s' = m_bypass_deferred s \<and>
     m_bypass_defer_head s' = m_bypass_defer_head s \<and>
     m_bypass_deferred_release s' = m_bypass_deferred_release s \<and>
     m_presenter s' = m_presenter s \<and>
     m_wayland_bypass s' = m_wayland_bypass s \<and>
     m_dri3_presenter s' = m_dri3_presenter s \<and>
     m_shm_presenter s' = m_shm_presenter s \<and>
     m_send_sbc s' = m_send_sbc s \<and>
     effects s' = effects s \<and>
     i < length (m_swapchain_images s') \<and> data (m_swapchain_images s' ! i) = Some d"
  by (induction ws arbitrary: s) (auto simp: woken_def split: if_splits option.splits)

lemma unpresented_append: "unpresented (xs @ ys) = unpresented xs @ unpresented ys"
  by (induction xs rule: unpresented.induct) auto



lemmas present_defs = present_image_def release_presented_def finish_present_def
  set_present_id_def unpresent_image_def wl_present_image_def dri3_present_image_def
  zero_copy_active_def ring_ok_def released_between_def BYPASS_DEFER_FRAMES_def

lemma present_image_deferred_step:
  assumes "present_image env r s = Returns (Some VK_SUCCESS, s')"
    and "zero_copy_active s" and "m_bypass_deferred_release s" and "ring_ok s"
  shows "m_bypass_deferred s' = (m_bypass_deferred s)[m_bypass_defer_head s := sint (image_index r)]"
    and "m_bypass_defer_head s' = (m_bypass_defer_head s + 1) mod 2"
    and "released_between s s' =
           (if 0 \<le> m_bypass_deferred s ! m_bypass_defer_head s
            then [word_of_int (m_bypass_deferred s ! m_bypass_defer_head s)] else [])"
    and "zero_copy_active s'" and "m_bypass_deferred_release s'" and "ring_ok s'"
  using assms
  by (auto simp: present_defs Let_def unpresented_append
      dest!: await_completion_slot_Returns
      split: outcome.splits prod.splits if_splits option.splits)




lemma sint_image_index:
  fixes w :: u32
  assumes "w < 0x80000000"
  shows "sint w = uint w"
proof -
  have "uint w < 2147483648"
    using assms by (simp add: word_less_def)
  moreover have "- 2147483648 \<le> uint w"
    by (rule order_trans [of _ 0]) simp_all
  ultimately have "signed_take_bit 31 (uint w) = uint w"
    by (intro signed_take_bit_int_eq_self) simp_all
  then show ?thesis
    by (simp add: sint_uint)
qed

lemma present_image_third:
  assumes ok: "ring_ok s" "zero_copy_active s" "m_bypass_deferred_release s"
    and p0: "present_image env0 r0 s = Returns (Some VK_SUCCESS, s1)"
    and p1: "present_image env1 r1 s1 = Returns (Some VK_SUCCESS, s2)"
    and p2: "present_image env2 r2 s2 = Returns (Some VK_SUCCESS, s3)"
    and idx: "image_index r0 < 0x80000000"
  shows "released_between s2 s3 = [image_index r0]"
proof -
  let ?h = "m_bypass_defer_head s"
  have h: "?h < 2" and len: "length (m_bypass_deferred s) = 2"
    using ok(1) by (simp_all add: ring_ok_def BYPASS_DEFER_FRAMES_def)
  note a = present_image_deferred_step [OF p0 ok(2) ok(3) ok(1)]
  note b = present_image_deferred_step [OF p1 a(4) a(5) a(6)]
  note c = present_image_deferred_step [OF p2 b(4) b(5) b(6)]
  have head2: "m_bypass_defer_head s2 = ?h"
    using h by (simp add: a(2) b(2)) presburger
  have neq: "(?h + 1) mod 2 \<noteq> ?h" using h by presburger
  have slot: "m_bypass_deferred s2 ! m_bypass_defer_head s2 = sint (image_index r0)"
    using h len neq by (simp add: head2 b(1) a(1) a(2))
  have nonneg: "0 \<le> sint (image_index r0)"
    by (simp add: sint_image_index [OF idx])
  show ?thesis
    using nonneg by (simp add: c(3) slot)
qed

lemma present_image_immediate:
  assumes "present_image env r s = Returns (Some VK_SUCCESS, s')"
    and "\<not> m_bypass_deferred_release s"
  shows "released_between s s' = [image_index r]"
    and "m_bypass_deferred s' = m_bypass_deferred s"
    and "m_bypass_defer_head s' = m_bypass_defer_head s"
  using assms
  by (auto simp: present_defs Let_def unpresented_append
      dest!: await_completion_slot_Returns
      split: outcome.splits prod.splits if_splits option.splits)

lemma present_image_failure:
  assumes "present_image env r s = Returns (Some res, s')"
    and "res \<noteq> VK_SUCCESS"
  shows "released_between s s' = [image_index r]"
    and "m_bypass_deferred s' = m_bypass_deferred s"
    and "m_bypass_defer_head s' = m_bypass_defer_head s"
  using assms
  by (auto simp: present_defs Let_def unpresented_append
      dest!: await_completion_slot_Returns
      split: outcome.splits prod.splits if_splits option.splits)



lemma present_image_failure_status:
  assumes "present_image env r s = Returns (Some res, s')"
    and "res \<noteq> VK_SUCCESS"
  shows "status (m_swapchain_images s' ! unat (image_index r)) = FREE"
  using assms
  by (auto simp: present_defs Let_def
      dest!: await_completion_slot_Returns
      split: outcome.splits prod.splits if_splits option.splits)

lemma present_image_immediate_status:
  assumes "present_image env r s = Returns (Some VK_SUCCESS, s')"
    and "\<not> m_bypass_deferred_release s"
  shows "status (m_swapchain_images s' ! unat (image_index r)) = FREE"
  using assms
  by (auto simp: present_defs Let_def
      dest!: await_completion_slot_Returns
      split: outcome.splits prod.splits if_splits option.splits)



lemma await_completion_slot_available:
  "slot_available i s d \<Longrightarrow> await_completion_slot ws i s = Returns (True, d, s)"
  by (cases ws) (simp_all add: slot_available_def)

lemma await_completion_slot_stalled:
  "stalled i s \<Longrightarrow> await_completion_slot (w # ws) i s = await_completion_slot ws i (woken w s)"
  by (auto simp: stalled_def split: option.splits)

lemma present_image_waits:
  assumes "stalled (unat (image_index r)) s"
  shows "present_image (env\<lparr>wakes := w # ws\<rparr>) r s = present_image (env\<lparr>wakes := ws\<rparr>) r (woken w s)"
proof -
  have e: "await_completion_slot (wakes (env\<lparr>wakes := w # ws\<rparr>)) (unat (image_index r)) s =
           await_completion_slot (wakes (env\<lparr>wakes := ws\<rparr>)) (unat (image_index r)) (woken w s)"
    using await_completion_slot_stalled [OF assms, of w ws] by simp
  have a: "set_present_id (env\<lparr>wakes := w # ws\<rparr>) = set_present_id (env\<lparr>wakes := ws\<rparr>)"
    by (simp add: set_present_id_def fun_eq_iff)
  have b: "finish_present (env\<lparr>wakes := w # ws\<rparr>) = finish_present (env\<lparr>wakes := ws\<rparr>)"
    by (simp add: finish_present_def a fun_eq_iff)
  have c: "wl_flush_ret (env\<lparr>wakes := w # ws\<rparr>) = wl_flush_ret (env\<lparr>wakes := ws\<rparr>)"
    by simp
  have d: "shm_present_result (env\<lparr>wakes := w # ws\<rparr>) = shm_present_result (env\<lparr>wakes := ws\<rparr>)"
    by simp
  show ?thesis
    unfolding present_image_def e a b c d by (rule refl)
qed

lemma present_image_answers:
  assumes "slot_available (unat (image_index r)) s d" and "presenter_answer env s d = Some res"
  shows "\<exists>s1. present_image env r s = Returns (Some res, s1)"
  using assms await_completion_slot_available [OF assms(1), of "wakes env"]
  by (auto simp: present_image_def presenter_answer_def Let_def split_beta
      split: option.splits if_splits)

lemma slot_available_unpresent_image:
  "slot_available i (unpresent_image j s) d = slot_available i s d"
  by (cases "i = unat j") (auto simp: slot_available_def unpresent_image_def)

lemma presenter_answer_unpresent_image:
  "presenter_answer env (unpresent_image j s) d = presenter_answer env s d"
  by (simp add: presenter_answer_def unpresent_image_def split: option.splits)

lemma slot_available_release_presented:
  "slot_available i (release_presented res idx s) d = slot_available i s d"
proof -
  have a: "slot_available i (s'\<lparr>m_bypass_deferred := x\<rparr>) d = slot_available i s' d" for s' x
    by (simp add: slot_available_def)
  have b: "slot_available i (s'\<lparr>m_bypass_defer_head := y\<rparr>) d = slot_available i s' d" for s' y
    by (simp add: slot_available_def)
  show ?thesis
    by (simp add: release_presented_def Let_def a b slot_available_unpresent_image)
qed

lemma presenter_answer_release_presented:
  "presenter_answer env (release_presented res idx s) d = presenter_answer env s d"
proof -
  have a: "presenter_answer env (s'\<lparr>m_bypass_deferred := x\<rparr>) d = presenter_answer env s' d" for s' x
    by (simp add: presenter_answer_def split: option.splits)
  have b: "presenter_answer env (s'\<lparr>m_bypass_defer_head := y\<rparr>) d = presenter_answer env s' d" for s' y
    by (simp add: presenter_answer_def split: option.splits)
  show ?thesis
    by (simp add: release_presented_def Let_def a b presenter_answer_unpresent_image)
qed

lemma slot_available_finish_present:
  "slot_available i (finish_present env r s) d = slot_available i s d"
  by (simp add: finish_present_def set_present_id_def slot_available_def Let_def)

lemma presenter_answer_finish_present:
  "presenter_answer env' (finish_present env r s) d = presenter_answer env' s d"
  by (simp add: finish_present_def set_present_id_def presenter_answer_def Let_def
      split: option.splits)


lemma dri3_present_image_result:
  "fst (dri3_present_image p d x) =
     (if m_connection p = None \<or> pixmap d = XCB_PIXMAP_NONE
      then VK_ERROR_SURFACE_LOST_KHR else VK_SUCCESS)"
  "m_connection (fst (snd (dri3_present_image p d x))) = m_connection p"
  by (simp_all add: dri3_present_image_def Let_def)

lemma presenter_answer_sbc:
  "presenter_answer env (s\<lparr>m_send_sbc := n\<rparr>) d = presenter_answer env s d"
  by (simp add: presenter_answer_def dri3_present_image_result split: option.splits)

lemma presenter_answer_effects:
  "presenter_answer env (s\<lparr>effects := es\<rparr>) d = presenter_answer env s d"
  by (simp add: presenter_answer_def split: option.splits)

lemma presenter_answer_dri3_presenter:
  "m_dri3_presenter s = Some p \<Longrightarrow>
   presenter_answer env (s\<lparr>m_dri3_presenter := Some (fst (snd (dri3_present_image p d0 x)))\<rparr>) d
     = presenter_answer env s d"
  by (simp add: presenter_answer_def dri3_present_image_result split: option.splits)

lemma slot_available_sbc:
  "slot_available i (s\<lparr>m_send_sbc := n\<rparr>) d = slot_available i s d"
  "slot_available i (s\<lparr>effects := es\<rparr>) d = slot_available i s d"
  "slot_available i (s\<lparr>m_dri3_presenter := q\<rparr>) d = slot_available i s d"
  by (simp_all add: slot_available_def)

lemma present_image_keeps_slot:
  assumes "slot_available (unat (image_index r)) s0 d0"
    and "present_image env r s0 = Returns (res, s')"
  shows "slot_available i s' d = slot_available i s0 d"
  using assms(2) unfolding present_image_def await_completion_slot_available [OF assms(1)]
  by (auto simp: Let_def split_beta slot_available_release_presented
      slot_available_finish_present slot_available_unpresent_image slot_available_sbc
      split: if_splits option.splits)

lemma present_image_keeps_answer:
  assumes "slot_available (unat (image_index r)) s0 d0"
    and "present_image env r s0 = Returns (res, s')"
  shows "presenter_answer env' s' d = presenter_answer env' s0 d"
  using assms(2) unfolding present_image_def await_completion_slot_available [OF assms(1)]
  by (auto simp: Let_def split_beta presenter_answer_release_presented
      presenter_answer_finish_present presenter_answer_unpresent_image presenter_answer_sbc
      presenter_answer_effects presenter_answer_dri3_presenter
      split: if_splits option.splits)


lemma present_image_blocks:
  assumes "stalled (unat (image_index r)) s"
  shows "present_image (env\<lparr>wakes := []\<rparr>) r s = Blocks"
  using assms by (auto simp: present_image_def stalled_def split: option.splits)

lemmas example_defs = example_dri3_def example_dri3_1_def example_dri3_2_def
  example_dri3_3_def example_env_def request_def example_data_def example_presenter_def
  example_bypass_def XCB_PIXMAP_NONE_def X11_SWAPCHAIN_MAX_PENDING_COMPLETIONS_def

lemma example_dri3_present_0:
  "present_image example_env (request 0) example_dri3 = Returns (Some VK_SUCCESS, example_dri3_1)"
  by (simp add: present_defs example_defs Let_def)

lemma example_dri3_present_1:
  "present_image example_env (request 1) example_dri3_1 = Returns (Some VK_SUCCESS, example_dri3_2)"
  by (simp add: present_defs example_defs Let_def)

lemma example_dri3_present_2:
  "present_image example_env (request 2) example_dri3_2 = Returns (Some VK_SUCCESS, example_dri3_3)"
  by (simp add: present_defs example_defs Let_def)

lemma example_bypass_present_0:
  "present_image (example_env\<lparr>wl_flush_ret := -1\<rparr>) (request 0) example_bypass
     = Returns (Some VK_ERROR_SURFACE_LOST_KHR, example_bypass_1)"
  by (simp add: present_defs example_defs example_bypass_1_def Let_def)

section \<open>The deferred-release ring\<close>

text \<open>
  Claim C1. A present of an image that has a free completion slot, to which the presenter
  answers \<^verbatim>\<open>VK_SUCCESS\<close>, returns with that result. On a swapchain with the
  deferred-release flag set, whose active presenter is the Wayland bypass or DRI3, it
  returns to the free pool exactly the image whose index is at the ring head, if that
  slot holds no sentinel, and nothing otherwise; it leaves the presented index (converted
  to \<^verbatim>\<open>int\<close>) in that slot and advances the head by one modulo
  \<^verbatim>\<open>BYPASS_DEFER_FRAMES\<close>. Hence two more presents of images with a free slot, to which
  the presenter answers \<^verbatim>\<open>VK_SUCCESS\<close>, succeed after it, and the second of them returns
  exactly the image of this present to the free pool (image indices are below \<open>2^31\<close>,
  so that they survive the conversion). With the flag clear, the present returns exactly
  the presented image to the free pool, at once, and leaves the ring alone. A present of
  an image without a free completion slot, while the event thread runs, waits: without a
  wake-up it does not return, and at a wake-up it goes on as a present from the state
  found then.
\<close>

theorem present_image_deferred_release:
  "(slot_available (unat (image_index r)) s d \<and> presenter_answer env s d = Some VK_SUCCESS \<longrightarrow>
      (\<exists>s1. present_image env r s = Returns (Some VK_SUCCESS, s1) \<and>
         (if m_bypass_deferred_release s
          then ring_ok s \<and> zero_copy_active s \<longrightarrow>
                 released_between s s1 =
                   (if 0 \<le> m_bypass_deferred s ! m_bypass_defer_head s
                    then [word_of_int (m_bypass_deferred s ! m_bypass_defer_head s)] else []) \<and>
                 m_bypass_deferred s1 =
                   (m_bypass_deferred s)[m_bypass_defer_head s := sint (image_index r)] \<and>
                 m_bypass_defer_head s1 = (m_bypass_defer_head s + 1) mod BYPASS_DEFER_FRAMES \<and>
                 (image_index r < 0x80000000 \<and>
                  slot_available (unat (image_index r1)) s d1 \<and>
                  presenter_answer env1 s d1 = Some VK_SUCCESS \<and>
                  slot_available (unat (image_index r2)) s d2 \<and>
                  presenter_answer env2 s d2 = Some VK_SUCCESS \<longrightarrow>
                    (\<exists>s2 s3. present_image env1 r1 s1 = Returns (Some VK_SUCCESS, s2) \<and>
                             present_image env2 r2 s2 = Returns (Some VK_SUCCESS, s3) \<and>
                             released_between s2 s3 = [image_index r]))
          else released_between s s1 = [image_index r] \<and>
               status (m_swapchain_images s1 ! unat (image_index r)) = FREE \<and>
               m_bypass_deferred s1 = m_bypass_deferred s \<and>
               m_bypass_defer_head s1 = m_bypass_defer_head s))) \<and>
   (stalled (unat (image_index r)) s \<longrightarrow>
      present_image (env\<lparr>wakes := []\<rparr>) r s = Blocks \<and>
      present_image (env\<lparr>wakes := w # ws\<rparr>) r s =
        present_image (env\<lparr>wakes := ws\<rparr>) r (woken w s))"
proof (intro conjI impI)
  assume h: "slot_available (unat (image_index r)) s d \<and> presenter_answer env s d = Some VK_SUCCESS"
  then have slot: "slot_available (unat (image_index r)) s d" by simp
  from h obtain s1 where p0: "present_image env r s = Returns (Some VK_SUCCESS, s1)"
    using present_image_answers by blast
  have "if m_bypass_deferred_release s
          then ring_ok s \<and> zero_copy_active s \<longrightarrow>
                 released_between s s1 =
                   (if 0 \<le> m_bypass_deferred s ! m_bypass_defer_head s
                    then [word_of_int (m_bypass_deferred s ! m_bypass_defer_head s)] else []) \<and>
                 m_bypass_deferred s1 =
                   (m_bypass_deferred s)[m_bypass_defer_head s := sint (image_index r)] \<and>
                 m_bypass_defer_head s1 = (m_bypass_defer_head s + 1) mod BYPASS_DEFER_FRAMES \<and>
                 (image_index r < 0x80000000 \<and>
                  slot_available (unat (image_index r1)) s d1 \<and>
                  presenter_answer env1 s d1 = Some VK_SUCCESS \<and>
                  slot_available (unat (image_index r2)) s d2 \<and>
                  presenter_answer env2 s d2 = Some VK_SUCCESS \<longrightarrow>
                    (\<exists>s2 s3. present_image env1 r1 s1 = Returns (Some VK_SUCCESS, s2) \<and>
                             present_image env2 r2 s2 = Returns (Some VK_SUCCESS, s3) \<and>
                             released_between s2 s3 = [image_index r]))
          else released_between s s1 = [image_index r] \<and>
               status (m_swapchain_images s1 ! unat (image_index r)) = FREE \<and>
               m_bypass_deferred s1 = m_bypass_deferred s \<and>
               m_bypass_defer_head s1 = m_bypass_defer_head s"
  proof (cases "m_bypass_deferred_release s")
    case True
    have third: "\<exists>s2 s3. present_image env1 r1 s1 = Returns (Some VK_SUCCESS, s2) \<and>
                         present_image env2 r2 s2 = Returns (Some VK_SUCCESS, s3) \<and>
                         released_between s2 s3 = [image_index r]"
      if ok: "ring_ok s" "zero_copy_active s" and idx: "image_index r < 0x80000000"
        and i1: "slot_available (unat (image_index r1)) s d1"
        and a1: "presenter_answer env1 s d1 = Some VK_SUCCESS"
        and i2: "slot_available (unat (image_index r2)) s d2"
        and a2: "presenter_answer env2 s d2 = Some VK_SUCCESS"
    proof -
      have i1': "slot_available (unat (image_index r1)) s1 d1"
        using i1 by (simp add: present_image_keeps_slot [OF slot p0])
      have a1': "presenter_answer env1 s1 d1 = Some VK_SUCCESS"
        using a1 by (simp add: present_image_keeps_answer [OF slot p0])
      from present_image_answers [OF i1' a1']
      obtain s2 where p1: "present_image env1 r1 s1 = Returns (Some VK_SUCCESS, s2)" ..
      have i2': "slot_available (unat (image_index r2)) s2 d2"
        using i2 by (simp add: present_image_keeps_slot [OF slot p0]
            present_image_keeps_slot [OF i1' p1])
      have a2': "presenter_answer env2 s2 d2 = Some VK_SUCCESS"
        using a2 by (simp add: present_image_keeps_answer [OF slot p0]
            present_image_keeps_answer [OF i1' p1])
      from present_image_answers [OF i2' a2']
      obtain s3 where p2: "present_image env2 r2 s2 = Returns (Some VK_SUCCESS, s3)" ..
      have "released_between s2 s3 = [image_index r]"
        using present_image_third [OF ok True p0 p1 p2 idx] .
      with p1 p2 show ?thesis by blast
    qed
    show ?thesis
      using True third present_image_deferred_step(1-3) [OF p0 _ True]
      by (simp add: BYPASS_DEFER_FRAMES_def)
  next
    case False
    then show ?thesis
      using present_image_immediate [OF p0 False] present_image_immediate_status [OF p0 False]
      by simp
  qed
  with p0 show "\<exists>s1. present_image env r s = Returns (Some VK_SUCCESS, s1) \<and>
         (if m_bypass_deferred_release s
          then ring_ok s \<and> zero_copy_active s \<longrightarrow>
                 released_between s s1 =
                   (if 0 \<le> m_bypass_deferred s ! m_bypass_defer_head s
                    then [word_of_int (m_bypass_deferred s ! m_bypass_defer_head s)] else []) \<and>
                 m_bypass_deferred s1 =
                   (m_bypass_deferred s)[m_bypass_defer_head s := sint (image_index r)] \<and>
                 m_bypass_defer_head s1 = (m_bypass_defer_head s + 1) mod BYPASS_DEFER_FRAMES \<and>
                 (image_index r < 0x80000000 \<and>
                  slot_available (unat (image_index r1)) s d1 \<and>
                  presenter_answer env1 s d1 = Some VK_SUCCESS \<and>
                  slot_available (unat (image_index r2)) s d2 \<and>
                  presenter_answer env2 s d2 = Some VK_SUCCESS \<longrightarrow>
                    (\<exists>s2 s3. present_image env1 r1 s1 = Returns (Some VK_SUCCESS, s2) \<and>
                             present_image env2 r2 s2 = Returns (Some VK_SUCCESS, s3) \<and>
                             released_between s2 s3 = [image_index r]))
          else released_between s s1 = [image_index r] \<and>
               status (m_swapchain_images s1 ! unat (image_index r)) = FREE \<and>
               m_bypass_deferred s1 = m_bypass_deferred s \<and>
               m_bypass_defer_head s1 = m_bypass_defer_head s)"
    by (intro exI [of _ s1] conjI)
next
  assume "stalled (unat (image_index r)) s"
  then show "present_image (env\<lparr>wakes := []\<rparr>) r s = Blocks"
    by (rule present_image_blocks)
next
  assume "stalled (unat (image_index r)) s"
  then show "present_image (env\<lparr>wakes := w # ws\<rparr>) r s =
        present_image (env\<lparr>wakes := ws\<rparr>) r (woken w s)"
    by (rule present_image_waits)
qed

theorem present_image_deferred_release_witness:
  "present_image example_env (request 0) example_dri3 = Returns (Some VK_SUCCESS, example_dri3_1) \<and>
   released_between example_dri3 example_dri3_1 = [] \<and>
   m_bypass_deferred example_dri3_1 = [0, -1] \<and>
   m_bypass_defer_head example_dri3_1 = 1 \<and>
   present_image example_env (request 1) example_dri3_1 = Returns (Some VK_SUCCESS, example_dri3_2) \<and>
   present_image example_env (request 2) example_dri3_2 = Returns (Some VK_SUCCESS, example_dri3_3) \<and>
   released_between example_dri3_2 example_dri3_3 = [0] \<and>
   present_image (example_env\<lparr>wakes := []\<rparr>) (request 0) example_stalled = Blocks \<and>
   present_image (example_env\<lparr>wakes := [example_wake 400 True]\<rparr>) (request 0) example_stalled
     = Returns (Some VK_SUCCESS, example_dri3_1)"
proof -
  have flag: "m_bypass_deferred_release example_dri3" "ring_ok example_dri3"
    "zero_copy_active example_dri3" "image_index (request 0) < 0x80000000"
    by (simp_all add: example_defs ring_ok_def zero_copy_active_def BYPASS_DEFER_FRAMES_def)
  have slots: "slot_available (unat (image_index (request 0))) example_dri3 (example_data 21 None)"
    "slot_available (unat (image_index (request 1))) example_dri3 (example_data 22 None)"
    "slot_available (unat (image_index (request 2))) example_dri3 (example_data 23 None)"
    by (simp_all add: example_defs slot_available_def)
  have answers: "presenter_answer example_env example_dri3 (example_data 21 None) = Some VK_SUCCESS"
    "presenter_answer example_env example_dri3 (example_data 22 None) = Some VK_SUCCESS"
    "presenter_answer example_env example_dri3 (example_data 23 None) = Some VK_SUCCESS"
    by (simp_all add: example_defs presenter_answer_def dri3_present_image_def)
  have ring: "m_bypass_deferred example_dri3 = [-1, -1]" "m_bypass_defer_head example_dri3 = 0"
    "image_index (request 0) = 0"
    by (simp_all add: example_defs)
  have st: "stalled (unat (image_index (request 0))) example_stalled"
    by (simp add: example_defs example_stalled_def stalled_def)
  have wk: "woken (example_wake 400 True) example_stalled = example_dri3"
    by (simp add: example_defs example_stalled_def example_wake_def woken_def)
  have env: "example_env\<lparr>wakes := []\<rparr> = example_env"
    by (simp add: example_env_def)
  note t = present_image_deferred_release [of "request 0" example_dri3 "example_data 21 None"
      example_env "request 1" "example_data 22 None" example_env
      "request 2" "example_data 23 None" example_env]
  have "\<exists>s1. present_image example_env (request 0) example_dri3 = Returns (Some VK_SUCCESS, s1) \<and>
          released_between example_dri3 s1 = [] \<and>
          m_bypass_deferred s1 = [0, -1] \<and>
          m_bypass_defer_head s1 = 1 \<and>
          (\<exists>s2 s3. present_image example_env (request 1) s1 = Returns (Some VK_SUCCESS, s2) \<and>
                   present_image example_env (request 2) s2 = Returns (Some VK_SUCCESS, s3) \<and>
                   released_between s2 s3 = [0])"
    using t slots answers flag by (simp add: ring BYPASS_DEFER_FRAMES_def)
  then obtain s1 where
    p0: "present_image example_env (request 0) example_dri3 = Returns (Some VK_SUCCESS, s1)"
    and rel: "released_between example_dri3 s1 = []"
    and buf: "m_bypass_deferred s1 = [0, -1]"
    and hd: "m_bypass_defer_head s1 = 1"
    and nxt: "\<exists>s2 s3. present_image example_env (request 1) s1 = Returns (Some VK_SUCCESS, s2) \<and>
                       present_image example_env (request 2) s2 = Returns (Some VK_SUCCESS, s3) \<and>
                       released_between s2 s3 = [0]"
    by blast
  have s1: "s1 = example_dri3_1"
    using p0 by (simp add: example_dri3_present_0)
  from nxt obtain s2 s3 where
    p1: "present_image example_env (request 1) s1 = Returns (Some VK_SUCCESS, s2)"
    and p2: "present_image example_env (request 2) s2 = Returns (Some VK_SUCCESS, s3)"
    and rel3: "released_between s2 s3 = [0]"
    by blast
  have s2: "s2 = example_dri3_2"
    using p1 by (simp add: s1 example_dri3_present_1)
  have s3: "s3 = example_dri3_3"
    using p2 by (simp add: s2 example_dri3_present_2)
  note w = present_image_deferred_release [of "request 0" example_stalled _ example_env
      _ _ _ _ _ _ "example_wake 400 True" "[]"]
  have b: "present_image (example_env\<lparr>wakes := []\<rparr>) (request 0) example_stalled = Blocks"
    and c: "present_image (example_env\<lparr>wakes := [example_wake 400 True]\<rparr>) (request 0)
              example_stalled = Returns (Some VK_SUCCESS, example_dri3_1)"
    using w st by (simp_all add: wk env example_dri3_present_0)
  show ?thesis
    using p0 rel buf hd p1 p2 rel3 b c unfolding s1 s2 s3 by (intro conjI)
qed

section \<open>Presentation failures\<close>

text \<open>
  Claim C2. A present of an image that has a free completion slot, to which the active
  presenter, whichever it is, answers anything but \<^verbatim>\<open>VK_SUCCESS\<close>, returns with that
  result, returns exactly the failing image to the free pool during the call (its status
  is \<open>FREE\<close> afterwards), and leaves the ring and its head as they were before the call.
  A present of an image without a free completion slot, while the event thread runs,
  waits: without a wake-up it does not return, and at a wake-up it goes on as a present
  from the state found then.
\<close>

theorem present_image_failure_releases:
  "(slot_available (unat (image_index r)) s d \<and> presenter_answer env s d = Some res \<and>
    res \<noteq> VK_SUCCESS \<longrightarrow>
      (\<exists>s'. present_image env r s = Returns (Some res, s') \<and>
            released_between s s' = [image_index r] \<and>
            status (m_swapchain_images s' ! unat (image_index r)) = FREE \<and>
            m_bypass_deferred s' = m_bypass_deferred s \<and>
            m_bypass_defer_head s' = m_bypass_defer_head s)) \<and>
   (stalled (unat (image_index r)) s \<longrightarrow>
      present_image (env\<lparr>wakes := []\<rparr>) r s = Blocks \<and>
      present_image (env\<lparr>wakes := w # ws\<rparr>) r s =
        present_image (env\<lparr>wakes := ws\<rparr>) r (woken w s))"
proof (intro conjI impI)
  assume h: "slot_available (unat (image_index r)) s d \<and> presenter_answer env s d = Some res \<and>
    res \<noteq> VK_SUCCESS"
  then obtain s' where p: "present_image env r s = Returns (Some res, s')"
    using present_image_answers by blast
  from h have f: "res \<noteq> VK_SUCCESS" by simp
  show "\<exists>s'. present_image env r s = Returns (Some res, s') \<and>
            released_between s s' = [image_index r] \<and>
            status (m_swapchain_images s' ! unat (image_index r)) = FREE \<and>
            m_bypass_deferred s' = m_bypass_deferred s \<and>
            m_bypass_defer_head s' = m_bypass_defer_head s"
    using p present_image_failure [OF p f] present_image_failure_status [OF p f]
    by (intro exI [of _ s']) simp
next
  assume "stalled (unat (image_index r)) s"
  then show "present_image (env\<lparr>wakes := []\<rparr>) r s = Blocks"
    by (rule present_image_blocks)
next
  assume "stalled (unat (image_index r)) s"
  then show "present_image (env\<lparr>wakes := w # ws\<rparr>) r s =
        present_image (env\<lparr>wakes := ws\<rparr>) r (woken w s)"
    by (rule present_image_waits)
qed

theorem present_image_failure_releases_witness:
  "present_image (example_env\<lparr>wl_flush_ret := -1\<rparr>) (request 0) example_bypass
     = Returns (Some VK_ERROR_SURFACE_LOST_KHR, example_bypass_1) \<and>
   released_between example_bypass example_bypass_1 = [0] \<and>
   status (m_swapchain_images example_bypass_1 ! 0) = FREE \<and>
   m_bypass_deferred example_bypass_1 = [-1, -1] \<and>
   m_bypass_defer_head example_bypass_1 = 0 \<and>
   present_image (example_env\<lparr>wl_flush_ret := -1, wakes := []\<rparr>) (request 0)
     example_bypass_stalled = Blocks \<and>
   present_image (example_env\<lparr>wl_flush_ret := -1, wakes := [example_bypass_wake]\<rparr>) (request 0)
     example_bypass_stalled = Returns (Some VK_ERROR_SURFACE_LOST_KHR, example_bypass_1)"
proof -
  let ?env = "example_env\<lparr>wl_flush_ret := -1\<rparr>"
  have slot: "slot_available (unat (image_index (request 0))) example_bypass
                (example_data 0 (Some 31))"
    by (simp add: example_defs slot_available_def)
  have answer: "presenter_answer ?env example_bypass (example_data 0 (Some 31))
                  = Some VK_ERROR_SURFACE_LOST_KHR"
    by (simp add: example_defs presenter_answer_def wl_present_image_def)
  have ring: "m_bypass_deferred example_bypass = [-1, -1]" "m_bypass_defer_head example_bypass = 0"
    "image_index (request 0) = 0" "unat (image_index (request 0)) = 0"
    by (simp_all add: example_defs)
  have st: "stalled (unat (image_index (request 0))) example_bypass_stalled"
    by (simp add: example_defs example_bypass_stalled_def stalled_def)
  have wk: "woken example_bypass_wake example_bypass_stalled = example_bypass"
    by (simp add: example_defs example_bypass_stalled_def example_bypass_wake_def woken_def)
  have env: "?env\<lparr>wakes := []\<rparr> = ?env"
    by (simp add: example_env_def)
  note t = present_image_failure_releases [of "request 0" example_bypass
      "example_data 0 (Some 31)" ?env VK_ERROR_SURFACE_LOST_KHR]
  have "\<exists>s'. present_image ?env (request 0) example_bypass
               = Returns (Some VK_ERROR_SURFACE_LOST_KHR, s') \<and>
             released_between example_bypass s' = [0] \<and>
             status (m_swapchain_images s' ! 0) = FREE \<and>
             m_bypass_deferred s' = [-1, -1] \<and>
             m_bypass_defer_head s' = 0"
    using t slot answer by (simp add: ring)
  then obtain s' where
    p: "present_image ?env (request 0) example_bypass = Returns (Some VK_ERROR_SURFACE_LOST_KHR, s')"
    and rel: "released_between example_bypass s' = [0]"
    and fr: "status (m_swapchain_images s' ! 0) = FREE"
    and buf: "m_bypass_deferred s' = [-1, -1]"
    and hd: "m_bypass_defer_head s' = 0"
    by blast
  have s': "s' = example_bypass_1"
    using p by (simp add: example_bypass_present_0)
  note w = present_image_failure_releases [of "request 0" example_bypass_stalled _ ?env _
      example_bypass_wake "[]"]
  have b: "present_image (?env\<lparr>wakes := []\<rparr>) (request 0) example_bypass_stalled = Blocks"
    and c: "present_image (?env\<lparr>wakes := [example_bypass_wake]\<rparr>) (request 0)
              example_bypass_stalled = Returns (Some VK_ERROR_SURFACE_LOST_KHR, example_bypass_1)"
    using w st by (simp_all add: wk env example_bypass_present_0)
  show ?thesis
    using p rel fr buf hd b c unfolding s' by (intro conjI)
qed

section \<open>DRI3 present serials\<close>




section \<open>Format remapping on the Wayland bypass path\<close>

text \<open>
  Claim C8. Whenever \<^verbatim>\<open>create_image_resources\<close> of the Wayland bypass gets as far as
  creating the \<^verbatim>\<open>wl_buffer\<close> (the dmabuf global and the display exist and plane 0 has a
  DMA-BUF fd), it issues exactly one buffer-creation request, and that request carries
  XRGB8888 for a negotiated ARGB8888, XBGR8888 for ABGR8888, and the negotiated fourcc
  itself in every other case, whatever the compositor then answers.
\<close>

theorem wl_create_image_resources_fourcc:
  assumes "m_dmabuf wb \<noteq> None" and "m_wl_display wb \<noteq> None"
    and "0 \<le> buffer_fds (external_mem image_data) ! 0"
  shows "created_fourccs (snd (snd (wl_create_image_resources wb created image_data w h fourcc modifier)))
          = [if fourcc = DRM_FORMAT_ARGB8888 then DRM_FORMAT_XRGB8888
             else if fourcc = DRM_FORMAT_ABGR8888 then DRM_FORMAT_XBGR8888
             else fourcc]"
  using assms
  by (cases created)
     (simp_all add: wl_create_image_resources_def Let_def DRM_FORMAT_ARGB8888_def
        DRM_FORMAT_XRGB8888_def DRM_FORMAT_ABGR8888_def DRM_FORMAT_XBGR8888_def)

theorem wl_create_image_resources_fourcc_witness:
  "created_fourccs (snd (snd (wl_create_image_resources
        \<lparr>m_wl_display = Some 1, m_wl_surface = Some 2, m_dmabuf = Some 3\<rparr> (Some 9)
        \<lparr>external_mem = \<lparr>buffer_fds = [7, -1, -1, -1], strides = [3200, 0, 0, 0],
                         offsets = [0, 0, 0, 0]\<rparr>,
         pixmap = 0, cpu_buffer = None, width = 0, height = 0, depth = 24,
         pending_completions = 0\<rparr>
        800 600 0x34325241 0)))
     = [0x34325258]"
  using wl_create_image_resources_fourcc
    [of "\<lparr>m_wl_display = Some 1, m_wl_surface = Some 2, m_dmabuf = Some 3\<rparr>"
        "\<lparr>external_mem = \<lparr>buffer_fds = [7, -1, -1, -1], strides = [3200, 0, 0, 0],
                         offsets = [0, 0, 0, 0]\<rparr>,
         pixmap = 0, cpu_buffer = None, width = 0, height = 0, depth = 24,
         pending_completions = 0\<rparr>"
        "Some 9" 800 600 "0x34325241" 0]
  by (simp add: DRM_FORMAT_ARGB8888_def DRM_FORMAT_XRGB8888_def)

section \<open>Waiting for a free image\<close>

lemma free_image_found_iff:
  "free_image_found imgs \<longleftrightarrow> (\<exists>img \<in> set imgs. status img = FREE)"
  by (induction imgs) auto

lemma wait_free_append:
  assumes "\<not> free_image_found imgs" and "run" and "\<forall>w \<in> set pre. still_waiting w"
  shows "wait_free (pre @ w # post) imgs run = wait_free post (w_images w) (w_run w)"
  using assms by (induction pre arbitrary: imgs run) (simp_all add: still_waiting_def)

lemma wait_free_blocks:
  assumes "\<not> free_image_found imgs" and "run" and "\<forall>w \<in> set pre. still_waiting w"
  shows "wait_free pre imgs run = Blocks"
  using assms by (induction pre arbitrary: imgs run) (simp_all add: still_waiting_def)

lemma wait_free_cases:
  "wait_free ws imgs run =
     (if free_image_found imgs then Returns None
      else if \<not> run then Returns (Some VK_ERROR_OUT_OF_DATE_KHR)
      else case ws of [] \<Rightarrow> Blocks | w # ws' \<Rightarrow> wait_free ws' (w_images w) (w_run w))"
  by (cases ws) simp_all

lemma wait_free_until_cases:
  "wait_free_until tp ws imgs run =
     (if free_image_found imgs then Returns None
      else if \<not> run then Returns (Some VK_ERROR_OUT_OF_DATE_KHR)
      else case ws of [] \<Rightarrow> Blocks
           | w # ws' \<Rightarrow> if tp \<le> w_now w then Returns (Some VK_TIMEOUT)
                         else wait_free_until tp ws' (w_images w) (w_run w))"
  by (cases ws) simp_all

lemma wait_free_until_append:
  assumes "\<not> free_image_found imgs" and "run"
    and "\<forall>w \<in> set pre. w_now w < tp \<and> still_waiting w"
  shows "wait_free_until tp (pre @ w # post) imgs run =
           (if tp \<le> w_now w then Returns (Some VK_TIMEOUT)
            else wait_free_until tp post (w_images w) (w_run w))"
  using assms by (induction pre arbitrary: imgs run) (simp_all add: still_waiting_def)

lemma wait_free_until_blocks:
  assumes "\<not> free_image_found imgs" and "run"
    and "\<forall>w \<in> set pre. w_now w < tp \<and> still_waiting w"
  shows "wait_free_until tp pre imgs run = Blocks"
  using assms by (induction pre arbitrary: imgs run) (simp_all add: still_waiting_def)


lemma get_free_buffer_poll:
  "get_free_buffer now ws 0 s =
     Returns (if \<exists>img \<in> set (m_swapchain_images s). status img = FREE
              then VK_SUCCESS else VK_NOT_READY, 0)"
  by (simp add: get_free_buffer_def free_image_found_iff)

lemma UINT64_MAX_neq_0: "UINT64_MAX \<noteq> 0"
  by (simp add: UINT64_MAX_def)

lemma get_free_buffer_forever:
  assumes "\<not> free_image_found (m_swapchain_images s)" and "m_present_event_thread_run s"
    and "\<forall>x \<in> set pre. still_waiting x"
  shows "get_free_buffer now pre UINT64_MAX s = Blocks"
    and "free_image_found (w_images w) \<Longrightarrow>
           get_free_buffer now (pre @ w # post) UINT64_MAX s = Returns (VK_SUCCESS, 0)"
    and "\<not> free_image_found (w_images w) \<Longrightarrow> \<not> w_run w \<Longrightarrow>
           get_free_buffer now (pre @ w # post) UINT64_MAX s =
             Returns (VK_ERROR_OUT_OF_DATE_KHR, UINT64_MAX)"
  using assms
  by (simp_all add: get_free_buffer_def UINT64_MAX_neq_0 wait_free_blocks wait_free_append
      wait_free_cases [of post])

lemma get_free_buffer_at_once:
  assumes "timeout \<noteq> 0"
  shows "free_image_found (m_swapchain_images s) \<Longrightarrow>
           get_free_buffer now ws timeout s = Returns (VK_SUCCESS, 0)"
    and "\<not> free_image_found (m_swapchain_images s) \<Longrightarrow> \<not> m_present_event_thread_run s \<Longrightarrow>
           get_free_buffer now ws timeout s = Returns (VK_ERROR_OUT_OF_DATE_KHR, timeout)"
  using assms
  by (auto simp: get_free_buffer_def Let_def wait_free_cases [of ws]
      wait_free_until_cases [of _ ws])

lemma get_free_buffer_deadline:
  assumes "timeout \<noteq> 0" and "timeout \<noteq> UINT64_MAX"
    and "\<not> free_image_found (m_swapchain_images s)" and "m_present_event_thread_run s"
    and "\<forall>x \<in> set pre. w_now x < sint (now + timeout) \<and> still_waiting x"
  shows "get_free_buffer now pre timeout s = Blocks"
    and "sint (now + timeout) \<le> w_now w \<Longrightarrow>
           get_free_buffer now (pre @ w # post) timeout s = Returns (VK_TIMEOUT, timeout)"
    and "w_now w < sint (now + timeout) \<Longrightarrow> free_image_found (w_images w) \<Longrightarrow>
           get_free_buffer now (pre @ w # post) timeout s = Returns (VK_SUCCESS, 0)"
    and "w_now w < sint (now + timeout) \<Longrightarrow> \<not> free_image_found (w_images w) \<Longrightarrow> \<not> w_run w \<Longrightarrow>
           get_free_buffer now (pre @ w # post) timeout s =
             Returns (VK_ERROR_OUT_OF_DATE_KHR, timeout)"
  using assms
  by (simp_all add: get_free_buffer_def Let_def wait_free_until_blocks wait_free_until_append
      wait_free_until_cases [of _ post])

lemma deadline_wraps:
  fixes now timeout :: u64
  shows "sint (now + timeout) = signed_take_bit 63 (sint now + uint timeout)"
proof -
  have k: "sint (word_of_int k :: u64) = signed_take_bit 63 k" for k
    using sint_sbintrunc' [where 'a = 64, of k] by simp
  have "now + timeout = word_of_int (sint now + uint timeout)"
    by simp
  then show ?thesis
    by (simp only: k)
qed

lemma deadline_bounds:
  fixes now timeout :: u64
  shows "sint (now + timeout) \<le> sint now + uint timeout"
    and "sint now + uint timeout \<le> 9223372036854775807 \<Longrightarrow>
           sint (now + timeout) = sint now + uint timeout"
proof -
  have l: "- 9223372036854775808 \<le> sint now"
    using sint_ge [of now] by simp
  have u: "0 \<le> uint timeout"
    by simp
  have "- 9223372036854775808 \<le> sint now + uint timeout"
    using l u by linarith
  then have lo: "- (2 ^ 63) \<le> sint now + uint timeout"
    by simp
  then show "sint (now + timeout) \<le> sint now + uint timeout"
    unfolding deadline_wraps by (simp only: signed_take_bit_int_less_eq_self_iff)
  show "sint (now + timeout) = sint now + uint timeout"
    if "sint now + uint timeout \<le> 9223372036854775807"
  proof -
    have "sint now + uint timeout < 2 ^ 63"
      using that by simp
    then show ?thesis
      unfolding deadline_wraps using lo by (intro signed_take_bit_int_eq_self)
  qed
qed

text \<open>
  Claim C3. With timeout 0, \<^verbatim>\<open>get_free_buffer\<close> returns at once, \<^verbatim>\<open>VK_SUCCESS\<close> if
  some image is \<open>FREE\<close> and \<^verbatim>\<open>VK_NOT_READY\<close> if none is. With any other timeout it
  returns \<^verbatim>\<open>VK_SUCCESS\<close> at once if some image is \<open>FREE\<close>. Otherwise, with the event
  thread running: with timeout \<^verbatim>\<open>UINT64_MAX\<close> it waits through every wake-up that finds
  no free image and the thread running, returns \<^verbatim>\<open>VK_SUCCESS\<close> at the first wake-up
  that finds a free image and \<^verbatim>\<open>VK_ERROR_OUT_OF_DATE_KHR\<close> at the first one that finds
  none and the run flag cleared; with another timeout it does the same up to the
  deadline and returns \<^verbatim>\<open>VK_TIMEOUT\<close> at the first wake-up at or after the deadline.
  The deadline is the 64-bit sum of the clock reading at the call and the timeout, read
  as a signed count: it is never later than the reading plus the timeout, so that the
  call never waits more than the timeout, and it is the reading plus the timeout
  whenever that is at most the largest signed count.
\<close>

theorem get_free_buffer_timeout:
  "(timeout = 0 \<longrightarrow>
      get_free_buffer now ws timeout s =
        Returns (if \<exists>img \<in> set (m_swapchain_images s). status img = FREE
                 then VK_SUCCESS else VK_NOT_READY, timeout)) \<and>
   (timeout \<noteq> 0 \<and> free_image_found (m_swapchain_images s) \<longrightarrow>
      get_free_buffer now ws timeout s = Returns (VK_SUCCESS, 0)) \<and>
   (timeout = UINT64_MAX \<and>
    \<not> free_image_found (m_swapchain_images s) \<and> m_present_event_thread_run s \<and>
    (\<forall>x \<in> set pre. still_waiting x) \<longrightarrow>
      get_free_buffer now pre timeout s = Blocks \<and>
      (free_image_found (w_images w) \<longrightarrow>
         get_free_buffer now (pre @ w # post) timeout s = Returns (VK_SUCCESS, 0)) \<and>
      (\<not> free_image_found (w_images w) \<and> \<not> w_run w \<longrightarrow>
         get_free_buffer now (pre @ w # post) timeout s =
           Returns (VK_ERROR_OUT_OF_DATE_KHR, timeout))) \<and>
   (timeout \<noteq> 0 \<and> timeout \<noteq> UINT64_MAX \<and>
    \<not> free_image_found (m_swapchain_images s) \<and> m_present_event_thread_run s \<and>
    (\<forall>x \<in> set pre. w_now x < sint (now + timeout) \<and> still_waiting x) \<longrightarrow>
      get_free_buffer now pre timeout s = Blocks \<and>
      (sint (now + timeout) \<le> w_now w \<longrightarrow>
         get_free_buffer now (pre @ w # post) timeout s = Returns (VK_TIMEOUT, timeout)) \<and>
      (w_now w < sint (now + timeout) \<and> free_image_found (w_images w) \<longrightarrow>
         get_free_buffer now (pre @ w # post) timeout s = Returns (VK_SUCCESS, 0))) \<and>
   sint (now + timeout) \<le> sint now + uint timeout \<and>
   (sint now + uint timeout \<le> 9223372036854775807 \<longrightarrow>
      sint (now + timeout) = sint now + uint timeout)"
proof (intro conjI impI)
  assume "timeout = 0"
  then show "get_free_buffer now ws timeout s =
      Returns (if \<exists>img \<in> set (m_swapchain_images s). status img = FREE
               then VK_SUCCESS else VK_NOT_READY, timeout)"
    by (simp add: get_free_buffer_poll)
next
  assume "timeout \<noteq> 0 \<and> free_image_found (m_swapchain_images s)"
  then show "get_free_buffer now ws timeout s = Returns (VK_SUCCESS, 0)"
    using get_free_buffer_at_once(1) [of timeout s now ws] by blast
next
  assume a: "timeout = UINT64_MAX \<and>
    \<not> free_image_found (m_swapchain_images s) \<and> m_present_event_thread_run s \<and>
    (\<forall>x \<in> set pre. still_waiting x)"
  then have b: "\<not> free_image_found (m_swapchain_images s)" "m_present_event_thread_run s"
    "\<forall>x \<in> set pre. still_waiting x" and t: "timeout = UINT64_MAX"
    by simp_all
  show "get_free_buffer now pre timeout s = Blocks"
    unfolding t by (rule get_free_buffer_forever(1) [OF b])
  show "get_free_buffer now (pre @ w # post) timeout s = Returns (VK_SUCCESS, 0)"
    if "free_image_found (w_images w)"
    unfolding t by (rule get_free_buffer_forever(2) [OF b that])
  show "get_free_buffer now (pre @ w # post) timeout s =
      Returns (VK_ERROR_OUT_OF_DATE_KHR, timeout)"
    if "\<not> free_image_found (w_images w) \<and> \<not> w_run w"
    unfolding t using get_free_buffer_forever(3) [OF b] that by blast
next
  assume a: "timeout \<noteq> 0 \<and> timeout \<noteq> UINT64_MAX \<and>
    \<not> free_image_found (m_swapchain_images s) \<and> m_present_event_thread_run s \<and>
    (\<forall>x \<in> set pre. w_now x < sint (now + timeout) \<and> still_waiting x)"
  then have b: "timeout \<noteq> 0" "timeout \<noteq> UINT64_MAX"
    "\<not> free_image_found (m_swapchain_images s)" "m_present_event_thread_run s"
    "\<forall>x \<in> set pre. w_now x < sint (now + timeout) \<and> still_waiting x"
    by simp_all
  show "get_free_buffer now pre timeout s = Blocks"
    by (rule get_free_buffer_deadline(1) [OF b])
  show "get_free_buffer now (pre @ w # post) timeout s = Returns (VK_TIMEOUT, timeout)"
    if "sint (now + timeout) \<le> w_now w"
    by (rule get_free_buffer_deadline(2) [OF b that])
  show "get_free_buffer now (pre @ w # post) timeout s = Returns (VK_SUCCESS, 0)"
    if "w_now w < sint (now + timeout) \<and> free_image_found (w_images w)"
    using get_free_buffer_deadline(3) [OF b] that by blast
next
  show "sint (now + timeout) \<le> sint now + uint timeout"
    by (rule deadline_bounds(1))
next
  assume "sint now + uint timeout \<le> 9223372036854775807"
  then show "sint (now + timeout) = sint now + uint timeout"
    by (rule deadline_bounds(2))
qed

theorem get_free_buffer_timeout_witness:
  "get_free_buffer 0 [] 0 example_dri3 = Returns (VK_NOT_READY, 0) \<and>
   get_free_buffer 0 [] 1000 example_dri3_3 = Returns (VK_SUCCESS, 0) \<and>
   get_free_buffer 0 [example_wake 400 True, example_wake 1000 True, example_wake 1200 False]
      UINT64_MAX example_dri3 = Returns (VK_ERROR_OUT_OF_DATE_KHR, UINT64_MAX) \<and>
   get_free_buffer 0 [example_wake 400 True, example_wake 1000 True, example_wake 1200 False]
      1000 example_dri3 = Returns (VK_TIMEOUT, 1000) \<and>
   get_free_buffer 1000 [example_wake 1400 True] 0x7FFFFFFFFFFFFFFF example_dri3
      = Returns (VK_TIMEOUT, 0x7FFFFFFFFFFFFFFF) \<and>
   sint (0 + 1000 :: u64) = 1000"
proof -
  have img: "\<not> free_image_found (m_swapchain_images example_dri3)"
    "m_present_event_thread_run example_dri3"
    "free_image_found (m_swapchain_images example_dri3_3)"
    by (simp_all add: example_dri3_def example_dri3_3_def)
  have w: "still_waiting (example_wake 400 True)" "still_waiting (example_wake 1000 True)"
    "\<not> free_image_found (w_images (example_wake 1200 False))"
    by (simp_all add: still_waiting_def example_wake_def example_dri3_def)
  have n: "(1000 :: u64) \<noteq> 0" "(1000 :: u64) \<noteq> UINT64_MAX" "sint (1000 :: u64) = 1000"
    by (simp_all add: UINT64_MAX_def)
  have m: "(0x7FFFFFFFFFFFFFFF :: u64) \<noteq> 0" "(0x7FFFFFFFFFFFFFFF :: u64) \<noteq> UINT64_MAX"
    "sint (1000 + 0x7FFFFFFFFFFFFFFF :: u64) = - 9223372036854774809"
    by (simp_all add: UINT64_MAX_def)
  have a: "get_free_buffer 0 [] 0 example_dri3 = Returns (VK_NOT_READY, 0)"
    using get_free_buffer_timeout [of 0 0 "[]" example_dri3] img
    by (simp add: free_image_found_iff)
  have a': "get_free_buffer 0 [] 1000 example_dri3_3 = Returns (VK_SUCCESS, 0)"
    using get_free_buffer_timeout [of 1000 0 "[]" example_dri3_3] img n
    by simp
  have b: "get_free_buffer 0 ([example_wake 400 True, example_wake 1000 True] @ example_wake 1200 False # [])
      UINT64_MAX example_dri3 = Returns (VK_ERROR_OUT_OF_DATE_KHR, UINT64_MAX)"
    using get_free_buffer_timeout [of UINT64_MAX 0 _ example_dri3
        "[example_wake 400 True, example_wake 1000 True]" "example_wake 1200 False" "[]"] img w
    by (simp add: example_wake_def)
  have c: "get_free_buffer 0 ([example_wake 400 True] @ example_wake 1000 True # [example_wake 1200 False])
      1000 example_dri3 = Returns (VK_TIMEOUT, 1000)"
    using get_free_buffer_timeout [of 1000 0 _ example_dri3
        "[example_wake 400 True]" "example_wake 1000 True" "[example_wake 1200 False]"] img w n
    by (simp add: example_wake_def)
  have d: "get_free_buffer 1000 ([] @ example_wake 1400 True # []) 0x7FFFFFFFFFFFFFFF example_dri3
      = Returns (VK_TIMEOUT, 0x7FFFFFFFFFFFFFFF)"
    using get_free_buffer_timeout [of "0x7FFFFFFFFFFFFFFF" 1000 _ example_dri3
        "[]" "example_wake 1400 True" "[]"] img m
    by (simp add: example_wake_def)
  have e: "sint (0 + 1000 :: u64) = 1000"
    using get_free_buffer_timeout [of 1000 0] by simp
  show ?thesis using a a' b c d e by simp
qed

text \<open>
  Claim C10. With timeout 0 the result of \<^verbatim>\<open>get_free_buffer\<close> is a function of the image
  statuses alone: \<^verbatim>\<open>VK_SUCCESS\<close> if some image is \<open>FREE\<close>, \<^verbatim>\<open>VK_NOT_READY\<close> if none
  is. The run flag of the event thread, the clock and the wake-ups have no part in it, the
  result is never \<^verbatim>\<open>VK_ERROR_OUT_OF_DATE_KHR\<close>, and the caller's timeout stays 0.
\<close>

theorem get_free_buffer_poll_ignores_run_flag:
  "get_free_buffer now ws 0 s =
     Returns (if \<exists>img \<in> set (m_swapchain_images s). status img = FREE
              then VK_SUCCESS else VK_NOT_READY, 0) \<and>
   get_free_buffer now ws 0 (s\<lparr>m_present_event_thread_run := run\<rparr>) = get_free_buffer now' ws' 0 s \<and>
   get_free_buffer now ws 0 s \<noteq> Returns (VK_ERROR_OUT_OF_DATE_KHR, t)"
  by (simp add: get_free_buffer_poll)

theorem get_free_buffer_poll_ignores_run_flag_witness:
  "get_free_buffer 0 [] 0 (example_dri3_3\<lparr>m_present_event_thread_run := False\<rparr>) =
     Returns (VK_SUCCESS, 0)"
  using get_free_buffer_poll_ignores_run_flag
    [of 0 "[]" "example_dri3_3\<lparr>m_present_event_thread_run := False\<rparr>"]
  by (simp add: example_defs)

section \<open>Destroying images and the swapchain\<close>

lemma destroy_image_status: "status (fst (destroy_image s img)) = INVALID"
  by (cases "status img = INVALID")
     (simp_all add: destroy_image_def Let_def split: option.splits)

lemma destroy_image_data: "data (fst (destroy_image s img)) = None"
  by (simp add: destroy_image_def Let_def split: option.splits)

lemma destroy_image_handle:
  "image_vk (fst (destroy_image s img)) =
     (if status img \<noteq> INVALID then VK_NULL_HANDLE else image_vk img)"
  by (simp add: destroy_image_def Let_def split: option.splits)


lemma destroy_image_again:
  "destroy_image s (fst (destroy_image s img)) = (fst (destroy_image s img), [])"
  by (simp add: destroy_image_def Let_def split: option.splits)












text \<open>
  Claim C9, as stated, fails: an image whose status is already \<open>INVALID\<close> keeps its
  Vulkan handle through \<^verbatim>\<open>destroy_image\<close>. The image of \<open>example_shm\<close> has the handle
  101 before and after the call, and the call destroys no Vulkan image.
\<close>

theorem destroy_image_counterexample:
  "destroy_image example_shm example_unbound =
     (\<lparr>data = None, image_vk = 101, status = INVALID\<rparr>,
      [ShmDestroyImageResources, AllocatorDestroy]) \<and>
   image_vk (fst (destroy_image example_shm example_unbound)) \<noteq> VK_NULL_HANDLE"
  by (simp add: destroy_image_def destroy_image_resources_def example_shm_def
      example_unbound_def example_data_def VK_NULL_HANDLE_def)

text \<open>
  Claim C9, amended. After one call of \<^verbatim>\<open>destroy_image\<close> the image's status is
  \<open>INVALID\<close> and its data pointer is null; its Vulkan handle is \<^verbatim>\<open>VK_NULL_HANDLE\<close> if
  the status was not \<open>INVALID\<close> before the call, and is the handle it had otherwise. A
  second call on the same image changes nothing and destroys nothing.
\<close>

theorem destroy_image_idempotent:
  "status (fst (destroy_image s img)) = INVALID \<and>
   data (fst (destroy_image s img)) = None \<and>
   image_vk (fst (destroy_image s img)) =
     (if status img \<noteq> INVALID then VK_NULL_HANDLE else image_vk img) \<and>
   destroy_image s (fst (destroy_image s img)) = (fst (destroy_image s img), [])"
  by (simp only: destroy_image_status destroy_image_data destroy_image_handle
      destroy_image_again simp_thms)

theorem destroy_image_idempotent_witness:
  "image_vk (fst (destroy_image example_dri3 (m_swapchain_images example_dri3 ! 0))) = VK_NULL_HANDLE \<and>
   destroy_image example_dri3 (fst (destroy_image example_dri3 (m_swapchain_images example_dri3 ! 0)))
     = (\<lparr>data = None, image_vk = VK_NULL_HANDLE, status = INVALID\<rparr>, [])"
  using destroy_image_idempotent [of example_dri3 "m_swapchain_images example_dri3 ! 0"]
  by (simp add: destroy_image_def example_dri3_def VK_NULL_HANDLE_def)

section \<open>The configuration override\<close>

lemma sscanf_app_pres_first_column:
  "sscanf_app_pres (c_str line) = Some (app, pres) \<Longrightarrow> app = first_column line"
  by (auto simp: sscanf_app_pres_def first_column_def Let_def split_beta split: if_splits)

lemma scan_config_lines_no_match:
  "\<forall>line \<in> set lines. first_column line \<noteq> proc_name \<Longrightarrow>
     scan_config_lines proc_name lines = PREFER_AUTO"
proof (induction lines)
  case Nil
  then show ?case by simp
next
  case (Cons line lines)
  then have rest: "scan_config_lines proc_name lines = PREFER_AUTO"
    and here: "first_column line \<noteq> proc_name"
    by simp_all
  show ?case
  proof (cases "sscanf_app_pres (c_str line)")
    case None
    then show ?thesis by (simp add: rest)
  next
    case (Some ap)
    obtain app pres where ap: "ap = (app, pres)" by (cases ap)
    have "app \<noteq> proc_name"
      using sscanf_app_pres_first_column [of line app pres] Some ap here by simp
    then show ?thesis by (simp add: Some ap rest)
  qed
qed

lemma example_routing_proc_name: "read_proc_name example_routing = ''myapp''"
  by code_simp

lemma example_routing_first_file:
  "example_routing ''/etc/sky1/wsi-routing.conf''
     = Some (''# routing'' @ [CHR 0x0A] @ ''other dri3'' @ [CHR 0x0A])"
  by (simp add: example_routing_def)

lemma example_routing_columns:
  "map first_column (fgets_lines 512 (''# routing'' @ [CHR 0x0A] @ ''other dri3'' @ [CHR 0x0A]))
     = [''#'', ''other'']"
  by code_simp

lemma example_routing_no_match:
  "list_all (\<lambda>line. first_column line \<noteq> ''myapp'')
     (fgets_lines 512 (''# routing'' @ [CHR 0x0A] @ ''other dri3'' @ [CHR 0x0A]))"
  by code_simp

lemma example_routing_second_file:
  "config_override example_routing ''myapp'' [''/usr/share/cix-gpu/wsi-routing.conf''] = PREFER_SHM"
  by code_simp

lemma example_routing_override:
  "config_override example_routing ''myapp'' config_paths = PREFER_SHM"
  by code_simp

lemma example_routing_preferred:
  "select_preferred no_environment example_routing = PREFER_SHM"
  by code_simp

lemma example_maps_file: "example_maps ''/proc/self/maps'' = Some example_long_line"
  by (simp add: example_maps_def)

lemma example_long_line_zink: "strstr example_long_line ''zink_dri.so''"
  by code_simp

lemma example_maps_preferred: "select_preferred no_environment example_maps = PREFER_DRI3"
  by code_simp

lemma example_long_line_length: "length example_long_line = 517"
  by code_simp

lemma example_long_line_cut: "map length (fgets_lines 512 example_long_line) = [511, 6]"
  by code_simp

text \<open>
  Claim C5, as stated, fails: the first routing file that exists does not decide alone.
  For the process \<^verbatim>\<open>myapp\<close>, \<^verbatim>\<open>/etc/sky1/wsi-routing.conf\<close> exists and its lines
  have the first columns \<^verbatim>\<open>#\<close> and \<^verbatim>\<open>other\<close>, and still the override \<^verbatim>\<open>shm\<close> is
  taken from \<^verbatim>\<open>/usr/share/cix-gpu/wsi-routing.conf\<close>.
\<close>

theorem config_override_counterexample:
  "read_proc_name example_routing = ''myapp'' \<and>
   example_routing ''/etc/sky1/wsi-routing.conf''
     = Some (''# routing'' @ [CHR 0x0A] @ ''other dri3'' @ [CHR 0x0A]) \<and>
   map first_column (fgets_lines 512 (''# routing'' @ [CHR 0x0A] @ ''other dri3'' @ [CHR 0x0A]))
     = [''#'', ''other''] \<and>
   config_override example_routing ''myapp'' config_paths = PREFER_SHM \<and>
   select_preferred no_environment example_routing = PREFER_SHM"
  by (intro conjI example_routing_proc_name example_routing_first_file example_routing_columns
      example_routing_override example_routing_preferred)

text \<open>
  Claim C5, amended. The routing files are consulted in their order, and the first file
  in which a line sets the preference decides. A file that does not exist, and a file
  that exists but has no line whose first column is the process's short name, sets none:
  the override is then whatever the later files give.
\<close>

theorem config_override_next_file:
  "(fs path = None \<longrightarrow>
      config_override fs proc_name (path # paths) = config_override fs proc_name paths) \<and>
   (fs path = Some content \<and>
    (\<forall>line \<in> set (fgets_lines 512 content). first_column line \<noteq> proc_name) \<longrightarrow>
      config_override fs proc_name (path # paths) = config_override fs proc_name paths) \<and>
   (fs path = Some content \<and>
    scan_config_lines proc_name (fgets_lines 512 content) \<noteq> PREFER_AUTO \<longrightarrow>
      config_override fs proc_name (path # paths)
        = scan_config_lines proc_name (fgets_lines 512 content))"
  by (simp add: scan_config_lines_no_match)

theorem config_override_next_file_witness:
  "config_override example_routing ''myapp'' config_paths
     = config_override example_routing ''myapp'' [''/usr/share/cix-gpu/wsi-routing.conf''] \<and>
   config_override example_routing ''myapp'' [''/usr/share/cix-gpu/wsi-routing.conf''] = PREFER_SHM"
proof -
  let ?c = "''# routing'' @ [CHR 0x0A] @ ''other dri3'' @ [CHR 0x0A]"
  have n: "\<forall>line \<in> set (fgets_lines 512 ?c). first_column line \<noteq> ''myapp''"
    using example_routing_no_match unfolding list_all_iff .
  have "config_override example_routing ''myapp'' (''/etc/sky1/wsi-routing.conf'' # [''/usr/share/cix-gpu/wsi-routing.conf''])
     = config_override example_routing ''myapp'' [''/usr/share/cix-gpu/wsi-routing.conf'']"
    using config_override_next_file [of example_routing "''/etc/sky1/wsi-routing.conf''" "''myapp''"
        "[''/usr/share/cix-gpu/wsi-routing.conf'']" ?c] example_routing_first_file n
    by blast
  then show ?thesis
    by (simp only: config_paths_def example_routing_second_file simp_thms)
qed

section \<open>Detection of Zink\<close>

lemma strstr_iff: "strstr hay needle \<longleftrightarrow> (\<exists>pre post. hay = pre @ needle @ post)"
proof (induction hay)
  case Nil
  then show ?case by simp
next
  case (Cons c cs)
  show ?case
  proof
    assume "strstr (c # cs) needle"
    then consider "take (length needle) (c # cs) = needle" | "strstr cs needle"
      by auto
    then show "\<exists>pre post. c # cs = pre @ needle @ post"
    proof cases
      case 1
      then have "c # cs = [] @ needle @ drop (length needle) (c # cs)"
        by (metis append_Nil append_take_drop_id)
      then show ?thesis by blast
    next
      case 2
      then obtain pre post where "cs = pre @ needle @ post"
        using Cons.IH by blast
      then have "c # cs = (c # pre) @ needle @ post" by simp
      then show ?thesis by blast
    qed
  next
    assume "\<exists>pre post. c # cs = pre @ needle @ post"
    then obtain pre post where eq: "c # cs = pre @ needle @ post" by blast
    show "strstr (c # cs) needle"
    proof (cases pre)
      case Nil
      then have "take (length needle) (c # cs) = needle"
        using eq by simp
      then show ?thesis by simp
    next
      case (Cons p pre')
      then have "cs = pre' @ needle @ post"
        using eq by simp
      then have "strstr cs needle"
        using Cons.IH by blast
      then show ?thesis by simp
    qed
  qed
qed

lemma fgets_chunk_append: "fst (fgets_chunk n cs) @ snd (fgets_chunk n cs) = cs"
  by (induction n cs rule: fgets_chunk.induct) (auto simp: split_beta)

lemma fgets_lines_part:
  "line \<in> set (fgets_lines n cs) \<Longrightarrow> \<exists>pre post. cs = pre @ line @ post"
proof (induction n cs rule: fgets_lines.induct)
  case (1 n cs)
  show ?case
  proof (cases "n < 2 \<or> cs = []")
    case True
    then show ?thesis using "1.prems" by (simp add: fgets_lines.simps)
  next
    case False
    let ?l = "fst (fgets_chunk (n - 1) cs)" and ?r = "snd (fgets_chunk (n - 1) cs)"
    have cs: "cs = ?l @ ?r" by (simp add: fgets_chunk_append)
    from False "1.prems" consider "line = ?l" | "line \<in> set (fgets_lines n ?r)"
      by (auto simp: fgets_lines.simps [of n cs])
    then show ?thesis
    proof cases
      case 1
      then have "cs = [] @ line @ ?r" using cs by simp
      then show ?thesis by blast
    next
      case 2
      then obtain pre post where "?r = pre @ line @ post"
        using "1.IH" [OF False] by blast
      then have "cs = (?l @ pre) @ line @ post" using cs by simp
      then show ?thesis by blast
    qed
  qed
qed

lemma c_str_part: "\<exists>post. buf = c_str buf @ post"
  by (metis c_str_def takeWhile_dropWhile_id)

lemma maps_has_zink_sound:
  assumes "maps_has_zink fs"
  shows "\<exists>content. fs ''/proc/self/maps'' = Some content \<and> strstr content ''zink_dri.so''"
proof -
  from assms obtain content line where f: "fs ''/proc/self/maps'' = Some content"
    and l: "line \<in> set (fgets_lines 512 content)" and s: "strstr (c_str line) ''zink_dri.so''"
    by (auto simp: maps_has_zink_def list_ex_iff split: option.splits)
  obtain a b where 1: "c_str line = a @ ''zink_dri.so'' @ b"
    using s unfolding strstr_iff by blast
  obtain c where 2: "line = c_str line @ c"
    using c_str_part by blast
  obtain d e where 3: "content = d @ line @ e"
    using fgets_lines_part [OF l] by blast
  have "content = (d @ a) @ ''zink_dri.so'' @ (b @ c @ e)"
    by (subst 3, subst 2, subst 1) simp
  then have "strstr content ''zink_dri.so''"
    unfolding strstr_iff by blast
  then show ?thesis using f by blast
qed

lemma select_preferred_bypass_sound:
  assumes "read_proc_name fs = [] \<or> config_override fs (read_proc_name fs) config_paths = PREFER_AUTO"
    and "select_preferred getenv fs = PREFER_BYPASS"
  shows "getenv ''MESA_LOADER_DRIVER_OVERRIDE'' = Some ''zink'' \<or>
         (\<exists>content. fs ''/proc/self/maps'' = Some content \<and> strstr content ''zink_dri.so'')"
proof -
  have "is_zink getenv fs"
    using assms by (auto simp: select_preferred_def Let_def split: if_splits)
  then show ?thesis
    using maps_has_zink_sound [of fs]
    by (auto simp: is_zink_def split: option.splits if_splits)
qed

lemma fgets_chunk_nonempty:
  "0 < n \<Longrightarrow> cs \<noteq> [] \<Longrightarrow> fst (fgets_chunk n cs) \<noteq> []"
  by (cases cs) (auto simp: split_beta)

lemma fgets_chunk_short:
  "length (fst (fgets_chunk n cs)) < n \<Longrightarrow>
     snd (fgets_chunk n cs) = [] \<or>
     (fst (fgets_chunk n cs) \<noteq> [] \<and> last (fst (fgets_chunk n cs)) = CHR 0x0A)"
proof (induction n cs rule: fgets_chunk.induct)
  case (1 n)
  then show ?case by simp
next
  case (2 n c cs)
  show ?case
  proof (cases "n = 0 \<or> c = CHR 0x0A")
    case True
    then show ?thesis using "2.prems" by auto
  next
    case False
    have n0: "n \<noteq> 0" and cn: "c \<noteq> CHR 0x0A" using False by simp_all
    have e: "fst (fgets_chunk n (c # cs)) = c # fst (fgets_chunk (n - 1) cs)"
      by (simp add: n0 cn split_beta)
    have "length (fst (fgets_chunk n (c # cs))) < n"
      by (rule "2.prems")
    then have "length (c # fst (fgets_chunk (n - 1) cs)) < n"
      by (simp only: e)
    then have "Suc (length (fst (fgets_chunk (n - 1) cs))) < n"
      by simp
    then have "length (fst (fgets_chunk (n - 1) cs)) < n - 1"
      by simp
    then have "snd (fgets_chunk (n - 1) cs) = [] \<or>
      (fst (fgets_chunk (n - 1) cs) \<noteq> [] \<and> last (fst (fgets_chunk (n - 1) cs)) = CHR 0x0A)"
      using "2.IH" False by (simp add: split_beta)
    then show ?thesis using False by (auto simp: split_beta)
  qed
qed

lemma straddle_last:
  assumes eq: "l @ r = pre @ needle @ post"
    and 1: "length pre < length l" and 2: "length l < length pre + length needle"
  shows "last l \<in> set needle"
proof -
  have l: "l \<noteq> []" using 1 by auto
  let ?i = "length l - 1"
  have "last l = l ! ?i" using l by (simp add: last_conv_nth)
  also have "\<dots> = (l @ r) ! ?i" using l by (simp add: nth_append)
  also have "\<dots> = (pre @ needle @ post) ! ?i" by (simp add: eq)
  also have "\<dots> = (needle @ post) ! (?i - length pre)"
  proof -
    have "\<not> ?i < length pre" using 1 by simp
    then show ?thesis by (simp only: nth_append if_False)
  qed
  also have "\<dots> = needle ! (?i - length pre)"
  proof -
    have "?i - length pre < length needle" using 1 2 by simp
    then show ?thesis by (simp only: nth_append if_True)
  qed
  finally have "last l = needle ! (?i - length pre)" .
  moreover have "?i - length pre < length needle" using 1 2 by simp
  ultimately show ?thesis by (metis nth_mem)
qed

lemma fgets_lines_finds:
  assumes "needle \<noteq> []" and "CHR 0x0A \<notin> set needle"
  shows "\<forall>chunk \<in> set (fgets_lines n cs). length chunk < n - 1 \<or> last chunk = CHR 0x0A \<Longrightarrow>
         cs = pre @ needle @ post \<Longrightarrow>
         2 \<le> n \<Longrightarrow>
         \<exists>chunk \<in> set (fgets_lines n cs). \<exists>a b. chunk = a @ needle @ b"
proof (induction n cs arbitrary: pre rule: fgets_lines.induct)
  case (1 n cs)
  have ne: "cs \<noteq> []" using "1.prems"(2) assms(1) by simp
  then have nb: "\<not> (n < 2 \<or> cs = [])" using "1.prems"(3) by simp
  let ?l = "fst (fgets_chunk (n - 1) cs)" and ?r = "snd (fgets_chunk (n - 1) cs)"
  have unfold: "fgets_lines n cs = ?l # fgets_lines n ?r"
    using nb by (simp add: fgets_lines.simps [of n cs])
  have cs: "?l @ ?r = cs" by (rule fgets_chunk_append)
  have lne: "?l \<noteq> []"
    using fgets_chunk_nonempty [of "n - 1" cs] ne "1.prems"(3) by simp
  have fit: "length ?l < n - 1 \<or> last ?l = CHR 0x0A"
    using "1.prems"(1) by (simp add: unfold)
  have rest: "\<forall>chunk \<in> set (fgets_lines n ?r). length chunk < n - 1 \<or> last chunk = CHR 0x0A"
    using "1.prems"(1) by (simp add: unfold)
  have eq: "?l @ ?r = pre @ needle @ post" using cs "1.prems"(2) by simp
  consider (inside) "length pre + length needle \<le> length ?l"
    | (after) "length ?l \<le> length pre"
    | (straddle) "length pre < length ?l" "length ?l < length pre + length needle"
    by linarith
  then show ?case
  proof cases
    case inside
    have "?l = take (length ?l) (pre @ needle @ post)"
      using eq by (metis append_eq_conv_conj)
    also have "\<dots> = pre @ needle @ take (length ?l - length pre - length needle) post"
      using inside by simp
    finally have "\<exists>a b. ?l = a @ needle @ b" by blast
    then show ?thesis by (simp add: unfold)
  next
    case after
    have "?r = drop (length ?l) (pre @ needle @ post)"
      using eq by (metis append_eq_conv_conj)
    also have "\<dots> = drop (length ?l) pre @ needle @ post"
      using after by simp
    finally have "?r = drop (length ?l) pre @ needle @ post" .
    from "1.IH" [OF nb rest this "1.prems"(3)] show ?thesis
      by (auto simp: unfold)
  next
    case straddle
    have last_in: "last ?l \<in> set needle"
      by (rule straddle_last [OF eq straddle])
    then have nonl: "last ?l \<noteq> CHR 0x0A" using assms(2) by auto
    then have short: "length ?l < n - 1" using fit by blast
    have "length (pre @ needle @ post) > length ?l" using straddle(2) by simp
    then have "?r \<noteq> []" using eq by (metis append_Nil2 less_irrefl)
    then show ?thesis
      using fgets_chunk_short [OF short] nonl by blast
  qed
qed

lemma c_str_no_nul: "CHR 0x00 \<notin> set buf \<Longrightarrow> c_str buf = buf"
  by (auto simp: c_str_def takeWhile_eq_all_conv)

lemma maps_has_zink_complete:
  assumes f: "fs ''/proc/self/maps'' = Some content"
    and nul: "CHR 0x00 \<notin> set content"
    and fit: "\<forall>chunk \<in> set (fgets_lines 512 content). length chunk < 511 \<or> last chunk = CHR 0x0A"
    and s: "strstr content ''zink_dri.so''"
  shows "maps_has_zink fs"
proof -
  obtain pre post where c: "content = pre @ ''zink_dri.so'' @ post"
    using s unfolding strstr_iff by blast
  have fit': "\<forall>chunk \<in> set (fgets_lines 512 content). length chunk < 512 - 1 \<or> last chunk = CHR 0x0A"
    using fit by simp
  have "\<exists>chunk \<in> set (fgets_lines 512 content). \<exists>a b. chunk = a @ ''zink_dri.so'' @ b"
    by (rule fgets_lines_finds [OF _ _ fit' c]) simp_all
  then obtain chunk where m: "chunk \<in> set (fgets_lines 512 content)"
    and h: "strstr chunk ''zink_dri.so''"
    unfolding strstr_iff by blast
  obtain d e where "content = d @ chunk @ e"
    using fgets_lines_part [OF m] by blast
  then have "CHR 0x00 \<notin> set chunk"
    using nul by auto
  then have "strstr (c_str chunk) ''zink_dri.so''"
    using h by (simp add: c_str_no_nul)
  then show ?thesis
    using m f by (auto simp: maps_has_zink_def list_ex_iff)
qed


lemma select_preferred_zink_exact:
  assumes "read_proc_name fs = [] \<or> config_override fs (read_proc_name fs) config_paths = PREFER_AUTO"
    and f: "fs ''/proc/self/maps'' = Some content"
    and nul: "CHR 0x00 \<notin> set content"
    and fit: "\<forall>chunk \<in> set (fgets_lines 512 content). length chunk < 511 \<or> last chunk = CHR 0x0A"
  shows "select_preferred getenv fs =
           (if getenv ''MESA_LOADER_DRIVER_OVERRIDE'' = Some ''zink'' \<or> strstr content ''zink_dri.so''
            then PREFER_BYPASS else PREFER_DRI3)"
proof -
  have m: "maps_has_zink fs \<longleftrightarrow> strstr content ''zink_dri.so''"
    using maps_has_zink_sound [of fs] maps_has_zink_complete [of fs content] f nul fit by auto
  have z: "is_zink getenv fs \<longleftrightarrow>
      getenv ''MESA_LOADER_DRIVER_OVERRIDE'' = Some ''zink'' \<or> strstr content ''zink_dri.so''"
    by (auto simp: is_zink_def m split: option.splits)
  have "select_preferred getenv fs = (if is_zink getenv fs then PREFER_BYPASS else PREFER_DRI3)"
    using assms(1) by (auto simp: select_preferred_def Let_def)
  then show ?thesis
    by (simp only: z)
qed

text \<open>
  Claim C6 holds as long as \<^verbatim>\<open>fgets\<close> cuts no line of \<^verbatim>\<open>/proc/self/maps\<close>
  (\<open>select_preferred_zink_exact\<close>), and one direction of it holds always
  (\<open>select_preferred_bypass_sound\<close>): without an override, the preference is
  \<open>PREFER_BYPASS\<close> only if the variable is \<^verbatim>\<open>zink\<close> or the file contains
  \<^verbatim>\<open>zink_dri.so\<close>. The other direction fails on a line longer than the buffer of 512:
  on the line \<open>example_long_line\<close> of 517 bytes, which contains \<^verbatim>\<open>zink_dri.so\<close>,
  \<^verbatim>\<open>fgets\<close> cuts between \<^verbatim>\<open>zink_d\<close> and \<^verbatim>\<open>ri.so\<close>, and the preference is
  \<open>PREFER_DRI3\<close>.
\<close>

theorem zink_detection_long_line:
  "example_maps ''/proc/self/maps'' = Some example_long_line \<and>
   length example_long_line = 517 \<and>
   strstr example_long_line ''zink_dri.so'' \<and>
   map length (fgets_lines 512 example_long_line) = [511, 6] \<and>
   select_preferred no_environment example_maps = PREFER_DRI3"
  by (intro conjI example_maps_file example_long_line_length example_long_line_zink
      example_long_line_cut example_maps_preferred)

end
